theory Spec2Isabelle
  imports Main
begin

section \<open>The rotating file writer of mlog (file_writer.go)\<close>

text \<open>
  The Go file is embedded function by function. Mutation of the receiver and of the
  operating system is explicit state passing: a method takes the \<open>FileWriter\<close> and the
  \<open>world\<close> and returns both. A \<open>panic\<close> is a value of the type \<open>outcome\<close>. The
  background goroutine of the hourly ticker is a transition system over its program
  points.
\<close>

subsection \<open>Wall-clock time\<close>

text \<open>
  A \<open>time.Time\<close> as the program reads it: the fields of the local date and clock. The
  program only calls \<open>Hour()\<close> and \<open>Format("2006-01-02_15")\<close> on it.
\<close>

record Time =
  Year :: nat
  Month :: nat
  Day :: nat
  Hour :: nat
  Minute :: nat
  Second :: nat

subsection \<open>Panics\<close>

datatype ('e, 'a) outcome = Panic 'e | Return 'a

subsection \<open>hourlyTicker\<close>

text \<open>
  The goroutine started by \<open>startTimer\<close> is at one of four program points:
  before its first statement, waiting in the \<open>select\<close> (with its local \<open>hour\<close>),
  parked in the send \<open>ht.C <- t\<close> (with \<open>hour\<close> and the tick \<open>t\<close>), or returned.
  \<open>C\<close> is made with \<open>make(chan time.Time)\<close>: it has no buffer, so it holds no
  state of its own, and a value can be received from it exactly while the goroutine is
  parked in the send. \<open>quitCh\<close> is only ever closed; its state is whether it is closed.
\<close>

datatype task = AtStart | AtSelect nat | AtSend nat Time | Finished

record hourlyTicker =
  quitCh_closed :: bool
  task :: task

text \<open>
  What the scheduler can make the goroutine do: run its first statement at some time,
  take the \<open>quitCh\<close> case of the \<open>select\<close>, or take the \<open>ticker.C\<close> case with the
  tick's time. When both cases are ready Go picks either.
\<close>

datatype event = Start Time | Quit | Tick Time

definition newHourlyTicker :: hourlyTicker where
  "newHourlyTicker = \<lparr>quitCh_closed = False, task = AtStart\<rparr>"

text \<open>One step of the goroutine; \<open>None\<close> when it cannot take that step where it stands.\<close>

fun startTimer_step :: "event \<Rightarrow> hourlyTicker \<Rightarrow> hourlyTicker option" where
  "startTimer_step (Start now) ht =
     (case task ht of
        AtStart \<Rightarrow> Some (ht\<lparr>task := AtSelect (Hour now)\<rparr>)
      | _ \<Rightarrow> None)"
| "startTimer_step Quit ht =
     (case task ht of
        AtSelect hour \<Rightarrow> if quitCh_closed ht then Some (ht\<lparr>task := Finished\<rparr>) else None
      | _ \<Rightarrow> None)"
| "startTimer_step (Tick t) ht =
     (case task ht of
        AtSelect hour \<Rightarrow>
          if Hour t \<noteq> hour then Some (ht\<lparr>task := AtSend hour t\<rparr>) else Some ht
      | _ \<Rightarrow> None)"

text \<open>
  A schedule offered to the goroutine: a step it cannot take leaves it where it is
  (the tick is dropped by the runtime's ticker, the closed \<open>quitCh\<close> stays closed).
\<close>

fun run :: "event list \<Rightarrow> hourlyTicker \<Rightarrow> hourlyTicker" where
  "run [] ht = ht"
| "run (e # es) ht =
     (case startTimer_step e ht of None \<Rightarrow> run es ht | Some ht' \<Rightarrow> run es ht')"

text \<open>
  The receive \<open><-fw.hourlyTicker.C\<close> of \<open>checkFile\<close>, which stands in a \<open>select\<close> with a
  \<open>default\<close> case: it succeeds only when the goroutine is parked in the send, and the
  goroutine then runs \<open>hour = t.Hour()\<close> and is back at its \<open>select\<close>.
\<close>

definition recv_C :: "hourlyTicker \<Rightarrow> (Time \<times> hourlyTicker) option" where
  "recv_C ht =
     (case task ht of
        AtSend hour t \<Rightarrow> Some (t, ht\<lparr>task := AtSelect (Hour t)\<rparr>)
      | _ \<Rightarrow> None)"

text \<open>\<open>stop\<close> is \<open>close(ht.quitCh)\<close>; closing a closed channel panics.\<close>

definition stop :: "hourlyTicker \<Rightarrow> (string, hourlyTicker) outcome" where
  "stop ht =
     (if quitCh_closed ht then Panic ''close of closed channel''
      else Return (ht\<lparr>quitCh_closed := True\<rparr>))"

subsection \<open>Errors\<close>

text \<open>
  The error values of the Go library calls the file makes. \<open>PathError\<close> is
  \<open>*fs.PathError{Op, Path, Err}\<close>, \<open>LinkError\<close> is \<open>*os.LinkError\<close>, \<open>SyscallError\<close> is
  \<open>*os.SyscallError\<close>, \<open>ErrInvalid\<close> is \<open>os.ErrInvalid\<close> (a method called on a nil
  \<open>*os.File\<close>), \<open>UrlError\<close> is \<open>*url.Error\<close> of the HTTP client.
\<close>

type_synonym path = string

datatype errno =
  ENOENT | EEXIST | ENOTDIR | EISDIR | ENOTEMPTY | ELOOP | EBUSY | EACCES | ENOSPC | EIO
  | ECONNREFUSED

datatype cause = Errno errno | ErrClosed

datatype error =
    PathError string path cause
  | LinkError string path path errno
  | SyscallError string errno
  | ErrInvalid
  | UrlError string string errno

fun underlying :: "error \<Rightarrow> errno option" where
  "underlying (PathError opn p (Errno e)) = Some e"
| "underlying (PathError opn p ErrClosed) = None"
| "underlying (LinkError opn old new e) = Some e"
| "underlying (SyscallError opn e) = Some e"
| "underlying ErrInvalid = None"
| "underlying (UrlError opn u e) = None"

text \<open>\<open>os.IsExist\<close>: the error reports that a file or directory already exists.\<close>

definition IsExist :: "error option \<Rightarrow> bool" where
  "IsExist err =
     (case err of
        None \<Rightarrow> False
      | Some e \<Rightarrow> underlying e = Some EEXIST \<or> underlying e = Some ENOTEMPTY)"

subsection \<open>path/filepath on Unix\<close>

definition IsAbs :: "path \<Rightarrow> bool" where
  "IsAbs p = (case p of [] \<Rightarrow> False | c # cs \<Rightarrow> c = CHR ''/'')"

text \<open>\<open>strings.Split(p, "/")\<close> and \<open>strings.Join(xs, "/")\<close>.\<close>

fun split_sep :: "string \<Rightarrow> string list" where
  "split_sep [] = [[]]"
| "split_sep (c # cs) =
     (if c = CHR ''/'' then [] # split_sep cs
      else (case split_sep cs of [] \<Rightarrow> [[c]] | x # xs \<Rightarrow> (c # x) # xs))"

fun join_sep :: "string list \<Rightarrow> string" where
  "join_sep [] = []"
| "join_sep [x] = x"
| "join_sep (x # y # ys) = x @ CHR ''/'' # join_sep (y # ys)"

text \<open>
  \<open>filepath.Clean\<close>, by its documented rules: separators are collapsed, \<open>.\<close> elements
  are dropped, an inner \<open>..\<close> removes the element before it, a \<open>..\<close> at the root of a
  rooted path is dropped, and the empty result is \<open>.\<close>. The elements kept so far are a
  stack, most recent first.
\<close>

definition clean_step :: "bool \<Rightarrow> string list \<Rightarrow> string \<Rightarrow> string list" where
  "clean_step rooted st c =
     (if c = [] \<or> c = ''.'' then st
      else if c = ''..'' then
        (case st of
           [] \<Rightarrow> if rooted then [] else [''..'']
         | s # st' \<Rightarrow> if s = ''..'' then ''..'' # st else st')
      else c # st)"

definition Clean :: "path \<Rightarrow> path" where
  "Clean p =
     (let rooted = IsAbs p;
          out = rev (foldl (clean_step rooted) [] (split_sep p));
          s = (if rooted then ''/'' else []) @ join_sep out
      in if s = [] then ''.'' else s)"

text \<open>\<open>filepath.Join\<close>: leading empty elements are skipped, the rest is joined and cleaned.\<close>

fun Join :: "string list \<Rightarrow> path" where
  "Join [] = []"
| "Join (e # es) = (if e = [] then Join es else Clean (join_sep (e # es)))"

subsection \<open>time.Format\<close>

definition digit :: "nat \<Rightarrow> char" where
  "digit n = char_of (48 + n)"

fun itoa :: "nat \<Rightarrow> string" where
  "itoa n = (if n < 10 then [digit n] else itoa (n div 10) @ [digit (n mod 10)])"

declare itoa.simps [simp del]

text \<open>The decimal digits of \<open>n\<close>, padded with zeros on the left to \<open>width\<close>.\<close>

definition appendInt :: "nat \<Rightarrow> nat \<Rightarrow> string" where
  "appendInt n width = replicate (width - length (itoa n)) (CHR ''0'') @ itoa n"

text \<open>\<open>t.Format("2006-01-02_15")\<close>.\<close>

definition Format :: "Time \<Rightarrow> string" where
  "Format t =
     appendInt (Year t) 4 @ ''-'' @ appendInt (Month t) 2 @ ''-'' @ appendInt (Day t) 2
       @ ''_'' @ appendInt (Hour t) 2"

subsection \<open>The operating system\<close>

text \<open>
  The file system is a list of entries keyed by cleaned absolute paths; the root is
  always a directory. A symbolic link is followed when it is the last element of a path
  that is opened; a directory that is reached through a symbolic link is not modelled.
  Permissions, quotas and the network are not modelled either: instead the environment
  may make any call fail with an error number (\<open>fault\<close>). Every call that reaches the
  operating system is appended to \<open>trace\<close> with its result.
\<close>

datatype node = Dir | Regular string | Link string

datatype json = JString string | JObject "(string \<times> json) list"

datatype call =
    Getwd
  | Mkdir path
  | Lstat path
  | Remove path
  | Symlink path path
  | OpenFile path
  | FileWrite path string
  | FileSync path
  | FileClose path
  | HttpPost string string json

record world =
  fs :: "(path \<times> node) list"
  cwd :: path
  now :: Time
  fault :: "call \<Rightarrow> errno option"
  trace :: "(call \<times> errno option) list"

definition logged :: "call \<Rightarrow> errno option \<Rightarrow> world \<Rightarrow> world" where
  "logged c r w = w\<lparr>trace := trace w @ [(c, r)]\<rparr>"

definition node_at :: "world \<Rightarrow> path \<Rightarrow> node option" where
  "node_at w k = (if k = ''/'' then Some Dir else map_of (fs w) k)"

definition put :: "path \<Rightarrow> node \<Rightarrow> world \<Rightarrow> world" where
  "put k n w = w\<lparr>fs := (k, n) # filter (\<lambda>e. fst e \<noteq> k) (fs w)\<rparr>"

definition del :: "path \<Rightarrow> world \<Rightarrow> world" where
  "del k w = w\<lparr>fs := filter (\<lambda>e. fst e \<noteq> k) (fs w)\<rparr>"

definition parent :: "path \<Rightarrow> path" where
  "parent k = Clean (k @ ''/..'')"

definition has_entries :: "world \<Rightarrow> path \<Rightarrow> bool" where
  "has_entries w k = (filter (\<lambda>e. fst e \<noteq> k \<and> parent (fst e) = k) (fs w) \<noteq> [])"

text \<open>
  The key of a path: relative paths are resolved against the working directory, the
  empty path names nothing.
\<close>

definition key_of :: "world \<Rightarrow> path \<Rightarrow> path option" where
  "key_of w p =
     (if p = [] then None
      else if IsAbs p then Some (Clean p)
      else Some (Join [cwd w, p]))"

text \<open>Whether a new entry can be made at \<open>k\<close>: its parent must be a directory.\<close>

definition creatable :: "world \<Rightarrow> path \<Rightarrow> errno option" where
  "creatable w k =
     (case node_at w (parent k) of
        None \<Rightarrow> Some ENOENT
      | Some Dir \<Rightarrow> None
      | Some _ \<Rightarrow> Some ENOTDIR)"

definition os_Getwd :: "world \<Rightarrow> (error + path) \<times> world" where
  "os_Getwd w =
     (case fault w Getwd of
        Some e \<Rightarrow> (Inl (SyscallError ''getwd'' e), logged Getwd (Some e) w)
      | None \<Rightarrow> (Inr (cwd w), logged Getwd None w))"

text \<open>
  \<open>filepath.Abs\<close>: an absolute path is cleaned; otherwise the working directory is
  asked for, and its failure gives the empty path and the error.
\<close>

definition Abs :: "path \<Rightarrow> world \<Rightarrow> (path \<times> error option) \<times> world" where
  "Abs p w =
     (if IsAbs p then ((Clean p, None), w)
      else
        (case os_Getwd w of
           (Inl err, w') \<Rightarrow> (([], Some err), w')
         | (Inr wd, w') \<Rightarrow> ((Join [wd, p], None), w')))"

text \<open>
  \<open>os.MkdirAll\<close>: the directories on the way to the path are made one after the other,
  from the root; one that exists and is no directory, or a \<open>mkdir\<close> that fails, ends it.
\<close>

fun mkdir_from :: "path \<Rightarrow> string list \<Rightarrow> world \<Rightarrow> errno option \<times> world" where
  "mkdir_from pre [] w = (None, w)"
| "mkdir_from pre (c # cs) w =
     (let k = Clean (pre @ ''/'' @ c) in
      case node_at w k of
        Some Dir \<Rightarrow> mkdir_from k cs w
      | Some _ \<Rightarrow> (Some ENOTDIR, w)
      | None \<Rightarrow>
          (case fault w (Mkdir k) of
             Some e \<Rightarrow> (Some e, logged (Mkdir k) (Some e) w)
           | None \<Rightarrow> mkdir_from k cs (logged (Mkdir k) None (put k Dir w))))"

definition os_MkdirAll :: "path \<Rightarrow> world \<Rightarrow> error option \<times> world" where
  "os_MkdirAll p w =
     (case key_of w p of
        None \<Rightarrow> (Some (PathError ''mkdir'' p (Errno ENOENT)), w)
      | Some k \<Rightarrow>
          (case mkdir_from ''/'' (filter (\<lambda>c. c \<noteq> []) (split_sep k)) w of
             (Some e, w') \<Rightarrow> (Some (PathError ''mkdir'' p (Errno e)), w')
           | (None, w') \<Rightarrow> (None, w')))"

text \<open>What a path names, its last element not followed.\<close>

definition lookup :: "world \<Rightarrow> path \<Rightarrow> node option" where
  "lookup w p = (case key_of w p of None \<Rightarrow> None | Some k \<Rightarrow> node_at w k)"

definition os_Lstat :: "path \<Rightarrow> world \<Rightarrow> (error + node) \<times> world" where
  "os_Lstat p w =
     (let r = (case fault w (Lstat p) of
                 Some e \<Rightarrow> Inl e
               | None \<Rightarrow> (case lookup w p of None \<Rightarrow> Inl ENOENT | Some n \<Rightarrow> Inr n))
      in case r of
           Inl e \<Rightarrow> (Inl (PathError ''lstat'' p (Errno e)), logged (Lstat p) (Some e) w)
         | Inr n \<Rightarrow> (Inr n, logged (Lstat p) None w))"

text \<open>\<open>os.Remove\<close> removes a file, a link or an empty directory.\<close>

definition os_Remove :: "path \<Rightarrow> world \<Rightarrow> error option \<times> world" where
  "os_Remove p w =
     (let r = (case fault w (Remove p) of
                 Some e \<Rightarrow> Inl e
               | None \<Rightarrow>
                   (case key_of w p of
                      None \<Rightarrow> Inl ENOENT
                    | Some k \<Rightarrow>
                        if k = ''/'' then Inl EBUSY
                        else
                          (case node_at w k of
                             None \<Rightarrow> Inl ENOENT
                           | Some Dir \<Rightarrow> if has_entries w k then Inl ENOTEMPTY else Inr k
                           | Some _ \<Rightarrow> Inr k)))
      in case r of
           Inl e \<Rightarrow> (Some (PathError ''remove'' p (Errno e)), logged (Remove p) (Some e) w)
         | Inr k \<Rightarrow> (None, logged (Remove p) None (del k w)))"

text \<open>\<open>os.Symlink(oldname, newname)\<close> makes \<open>newname\<close> a link whose text is \<open>oldname\<close>.\<close>

definition os_Symlink :: "path \<Rightarrow> path \<Rightarrow> world \<Rightarrow> error option \<times> world" where
  "os_Symlink oldname newname w =
     (let r = (case fault w (Symlink oldname newname) of
                 Some e \<Rightarrow> Inl e
               | None \<Rightarrow>
                   (case key_of w newname of
                      None \<Rightarrow> Inl ENOENT
                    | Some k \<Rightarrow>
                        if oldname = [] then Inl ENOENT
                        else if node_at w k \<noteq> None then Inl EEXIST
                        else (case creatable w k of Some e \<Rightarrow> Inl e | None \<Rightarrow> Inr k)))
      in case r of
           Inl e \<Rightarrow> (Some (LinkError ''symlink'' oldname newname e),
                     logged (Symlink oldname newname) (Some e) w)
         | Inr k \<Rightarrow> (None, logged (Symlink oldname newname) None (put k (Link oldname) w)))"

text \<open>
  Following the links at the end of a path, at most \<open>n\<close> of them; a link's text is read
  from the directory the link is in.
\<close>

fun follow :: "nat \<Rightarrow> world \<Rightarrow> path \<Rightarrow> errno + path" where
  "follow 0 w k = Inl ELOOP"
| "follow (Suc n) w k =
     (case node_at w k of
        Some (Link t) \<Rightarrow>
          if t = [] then Inl ENOENT
          else follow n w (if IsAbs t then Clean t else Join [parent k, t])
      | _ \<Rightarrow> Inr k)"

text \<open>
  An open \<open>*os.File\<close>: the name it was opened with, the entry it writes to, and whether
  it has been closed. The field \<open>fd\<close> of the writer is the only reference to it, so it
  is kept by value; \<open>None\<close> is the nil pointer.
\<close>

record File =
  name :: path
  entry :: path
  closed :: bool

text \<open>\<open>os.OpenFile(p, O_CREATE|O_APPEND|O_RDWR, 0666)\<close>.\<close>

definition os_OpenFile :: "path \<Rightarrow> world \<Rightarrow> (error + File) \<times> world" where
  "os_OpenFile p w =
     (let r = (case fault w (OpenFile p) of
                 Some e \<Rightarrow> Inl e
               | None \<Rightarrow>
                   (case key_of w p of
                      None \<Rightarrow> Inl ENOENT
                    | Some k \<Rightarrow>
                        (case follow 40 w k of
                           Inl e \<Rightarrow> Inl e
                         | Inr q \<Rightarrow>
                             (case node_at w q of
                                Some Dir \<Rightarrow> Inl EISDIR
                              | Some _ \<Rightarrow> Inr (q, False)
                              | None \<Rightarrow>
                                  (case creatable w q of
                                     Some e \<Rightarrow> Inl e
                                   | None \<Rightarrow> Inr (q, True))))))
      in case r of
           Inl e \<Rightarrow> (Inl (PathError ''open'' p (Errno e)), logged (OpenFile p) (Some e) w)
         | Inr (q, create) \<Rightarrow>
             (Inr \<lparr>name = p, entry = q, closed = False\<rparr>,
              logged (OpenFile p) None (if create then put q (Regular []) w else w)))"

text \<open>
  \<open>(*os.File).Write\<close>, \<open>Sync\<close> and \<open>Close\<close>: on nil they return \<open>ErrInvalid\<close>, on a
  closed file a \<open>PathError\<close> with \<open>ErrClosed\<close>, and neither reaches the operating
  system. The file is opened with \<open>O_APPEND\<close>: a write extends the entry.
\<close>

definition File_Write :: "File option \<Rightarrow> string \<Rightarrow> world \<Rightarrow> error option \<times> world" where
  "File_Write fo b w =
     (case fo of
        None \<Rightarrow> (Some ErrInvalid, w)
      | Some f \<Rightarrow>
          if closed f then (Some (PathError ''write'' (name f) ErrClosed), w)
          else
            (case fault w (FileWrite (name f) b) of
               Some e \<Rightarrow> (Some (PathError ''write'' (name f) (Errno e)),
                         logged (FileWrite (name f) b) (Some e) w)
             | None \<Rightarrow>
                 (None,
                  logged (FileWrite (name f) b) None
                    (case node_at w (entry f) of
                       Some (Regular content) \<Rightarrow> put (entry f) (Regular (content @ b)) w
                     | _ \<Rightarrow> w))))"

definition File_Sync :: "File option \<Rightarrow> world \<Rightarrow> error option \<times> world" where
  "File_Sync fo w =
     (case fo of
        None \<Rightarrow> (Some ErrInvalid, w)
      | Some f \<Rightarrow>
          if closed f then (Some (PathError ''sync'' (name f) ErrClosed), w)
          else
            (case fault w (FileSync (name f)) of
               Some e \<Rightarrow> (Some (PathError ''sync'' (name f) (Errno e)),
                         logged (FileSync (name f)) (Some e) w)
             | None \<Rightarrow> (None, logged (FileSync (name f)) None w)))"

definition File_Close :: "File option \<Rightarrow> world \<Rightarrow> error option \<times> File option \<times> world" where
  "File_Close fo w =
     (case fo of
        None \<Rightarrow> (Some ErrInvalid, None, w)
      | Some f \<Rightarrow>
          if closed f then (Some (PathError ''close'' (name f) ErrClosed), Some f, w)
          else
            (case fault w (FileClose (name f)) of
               Some e \<Rightarrow> (Some (PathError ''close'' (name f) (Errno e)),
                         Some (f\<lparr>closed := True\<rparr>), logged (FileClose (name f)) (Some e) w)
             | None \<Rightarrow> (None, Some (f\<lparr>closed := True\<rparr>), logged (FileClose (name f)) None w)))"

text \<open>
  \<open>http.DefaultClient.Post\<close>: one request; any response, whatever its status, is no
  error.
\<close>

definition http_Post :: "string \<Rightarrow> string \<Rightarrow> json \<Rightarrow> world \<Rightarrow> error option \<times> world" where
  "http_Post u contentType body w =
     (case fault w (HttpPost u contentType body) of
        Some e \<Rightarrow> (Some (UrlError ''Post'' u e), logged (HttpPost u contentType body) (Some e) w)
      | None \<Rightarrow> (None, logged (HttpPost u contentType body) None w))"


subsection \<open>FileWriter\<close>

text \<open>
  \<open>Level\<close> and the constant \<open>LevelError\<close> are declared in another file of the
  package: levels are integers compared with \<open>>=\<close>, and \<open>LevelError\<close> is a parameter
  of \<open>Write\<close>.
\<close>

type_synonym Level = int

record SlackMsg =
  Text :: string
  Username :: string
  Channel :: string

record FileWriter =
  level :: Level
  filepath :: string
  fd :: "File option"
  url :: string
  slack :: SlackMsg
  hourlyTicker :: hourlyTicker

text \<open>
  \<open>newHourlyTicker()\<close> is evaluated once, by \<open>NewFileWriter\<close>; the writer keeps the
  pointer, so the ticker's state is kept in the writer. Writers are made by
  \<open>NewFileWriter\<close>: the pointer is never nil.
\<close>

definition NewFileWriter :: "string \<Rightarrow> string \<Rightarrow> string \<Rightarrow> string \<Rightarrow> FileWriter" where
  "NewFileWriter fp nm u channel =
     \<lparr>level = 0, filepath = fp, fd = None, url = u,
      slack = \<lparr>Text = [], Username = nm, Channel = channel\<rparr>,
      hourlyTicker = newHourlyTicker\<rparr>"

definition Init :: "FileWriter \<Rightarrow> world \<Rightarrow> (error, error option) outcome \<times> FileWriter \<times> world" where
  "Init fw w =
     (let fw1 = (if length (filepath fw) = 0 then fw\<lparr>filepath := ''./''\<rparr> else fw);
          (fw2, w2) =
            (if \<not> IsAbs (filepath fw1)
             then (case Abs (filepath fw1) w of ((p, _), w') \<Rightarrow> (fw1\<lparr>filepath := p\<rparr>, w'))
             else (fw1, w))
      in case os_MkdirAll (filepath fw2) w2 of
           (Some err, w3) \<Rightarrow> (Panic err, fw2, w3)
         | (None, w3) \<Rightarrow>
             (let logFile = ''text_'' @ Format (now w3) @ ''.log'';
                  linkFile = Join [filepath fw2, ''text.log''];
                  (st, w4) = os_Lstat linkFile w3;
                  err = (case st of Inl e \<Rightarrow> Some e | Inr _ \<Rightarrow> None);
                  w5 = (if err = None \<or> IsExist err then snd (os_Remove linkFile w4) else w4);
                  w6 = snd (os_Symlink logFile linkFile w5)
              in case os_OpenFile (Join [filepath fw2, logFile]) w6 of
                   (Inl err, w7) \<Rightarrow> (Return (Some err), fw2, w7)
                 | (Inr f, w7) \<Rightarrow> (Return None, fw2\<lparr>fd := Some f\<rparr>, w7)))"



text \<open>
  \<open>json.Marshal\<close> of a \<open>SlackMsg\<close>: an object of its three fields under their tags. On
  a struct of strings it returns no error.
\<close>

definition json_Marshal :: "SlackMsg \<Rightarrow> error + json" where
  "json_Marshal msg =
     Inr (JObject [(''text'', JString (Text msg)),
                   (''username'', JString (Username msg)),
                   (''channel'', JString (Channel msg))])"

definition postToSlack :: "FileWriter \<Rightarrow> string \<Rightarrow> world \<Rightarrow> error option \<times> world" where
  "postToSlack fw errMsg w =
     (let msg = \<lparr>Text = errMsg, Username = Username (slack fw), Channel = Channel (slack fw)\<rparr>
      in case json_Marshal msg of
           Inl err \<Rightarrow> (Some err, w)
         | Inr postData \<Rightarrow> http_Post (url fw) ''application/json'' postData w)"

text \<open>
  \<open>checkFile\<close>: the \<open>select\<close> receives from the ticker's channel when a value is offered
  and otherwise takes the \<open>default\<close> case. The results of \<open>Sync\<close>, \<open>Close\<close> and \<open>Init\<close>
  are dropped; a panic of \<open>Init\<close> is not.
\<close>

definition checkFile :: "FileWriter \<Rightarrow> world \<Rightarrow> (error, unit) outcome \<times> FileWriter \<times> world" where
  "checkFile fw w =
     (case recv_C (hourlyTicker fw) of
        Some (t, ht) \<Rightarrow>
          (let fw1 = fw\<lparr>hourlyTicker := ht\<rparr>;
               w1 = snd (File_Sync (fd fw1) w);
               (_, f, w2) = File_Close (fd fw1) w1;
               fw2 = fw1\<lparr>fd := f\<rparr>
           in case Init fw2 w2 of
                (Panic err, fw3, w3) \<Rightarrow> (Panic err, fw3, w3)
              | (Return _, fw3, w3) \<Rightarrow> (Return (), fw3, w3))
      | None \<Rightarrow> (Return (), fw, w))"

text \<open>
  \<open>Write\<close>. \<open>fmt.Errorf\<close> only builds an error value, which is dropped.
  \<open>fmt.Fprint(fw.fd, msg)\<close> is one \<open>Write\<close> of the bytes of \<open>msg\<close> on the file.
\<close>

definition Write ::
  "Level \<Rightarrow> FileWriter \<Rightarrow> string \<Rightarrow> Level \<Rightarrow> world
     \<Rightarrow> (error, error option) outcome \<times> FileWriter \<times> world" where
  "Write LevelError fw msg lvl w =
     (let w1 = (if lvl \<ge> LevelError then snd (postToSlack fw msg w) else w)
      in case checkFile fw w1 of
           (Panic err, fw2, w2) \<Rightarrow> (Panic err, fw2, w2)
         | (Return _, fw2, w2) \<Rightarrow>
             (case File_Write (fd fw2) msg w2 of (err, w3) \<Rightarrow> (Return err, fw2, w3)))"

definition WriteToSlack :: "FileWriter \<Rightarrow> string \<Rightarrow> Level \<Rightarrow> error option" where
  "WriteToSlack fw msg lvl = None"

definition Flush :: "FileWriter \<Rightarrow> world \<Rightarrow> error option \<times> world" where
  "Flush fw w = File_Sync (fd fw) w"

definition Close :: "FileWriter \<Rightarrow> world \<Rightarrow> error option \<times> FileWriter \<times> world" where
  "Close fw w = (case File_Close (fd fw) w of (err, f, w') \<Rightarrow> (err, fw\<lparr>fd := f\<rparr>, w'))"

subsection \<open>Notions used in the statements\<close>

text \<open>
  The first statements of \<open>Init\<close> (the two \<open>if\<close>s on \<open>fw.filepath\<close>), on their own:
  the writer and the world with which \<open>Init\<close> goes on to \<open>os.MkdirAll\<close>.
\<close>

definition Init_dir :: "FileWriter \<Rightarrow> world \<Rightarrow> FileWriter \<times> world" where
  "Init_dir fw w =
     (let fw1 = (if length (filepath fw) = 0 then fw\<lparr>filepath := ''./''\<rparr> else fw)
      in if \<not> IsAbs (filepath fw1)
         then (case Abs (filepath fw1) w of ((p, _), w') \<Rightarrow> (fw1\<lparr>filepath := p\<rparr>, w'))
         else (fw1, w))"

text \<open>Between two worlds only the file system and the trace may differ.\<close>

definition only_fs_trace :: "world \<Rightarrow> world \<Rightarrow> bool" where
  "only_fs_trace w w' = (cwd w' = cwd w \<and> now w' = now w \<and> fault w' = fault w)"

text \<open>The calls made between two worlds, and the HTTP requests among the calls so far.\<close>

definition calls_since :: "world \<Rightarrow> world \<Rightarrow> (call \<times> errno option) list" where
  "calls_since w w' = drop (length (trace w)) (trace w')"

fun is_post :: "call \<Rightarrow> bool" where
  "is_post (HttpPost u t b) = True"
| "is_post _ = False"

definition posts :: "world \<Rightarrow> call list" where
  "posts w = filter is_post (map fst (trace w))"

text \<open>
  A file-system call names an absolute path (for a link, the place of the link), and a
  call is one of the three \<open>Init\<close> makes on the alias.
\<close>

fun abs_call :: "call \<Rightarrow> bool" where
  "abs_call (Mkdir p) = IsAbs p"
| "abs_call (Lstat p) = IsAbs p"
| "abs_call (Remove p) = IsAbs p"
| "abs_call (Symlink oldname newname) = IsAbs newname"
| "abs_call (OpenFile p) = IsAbs p"
| "abs_call _ = True"

fun alias_call :: "call \<Rightarrow> bool" where
  "alias_call (Lstat p) = True"
| "alias_call (Remove p) = True"
| "alias_call (Symlink oldname newname) = True"
| "alias_call _ = False"

text \<open>
  Two worlds have the same storage: the same file system, working directory and clock,
  and the same failures of every call that is no HTTP request. They may differ in what
  the network does and in the calls made so far.
\<close>

definition same_storage :: "world \<Rightarrow> world \<Rightarrow> bool" where
  "same_storage w w' =
     (fs w' = fs w \<and> cwd w' = cwd w \<and> now w' = now w
      \<and> (\<forall>c. \<not> is_post c \<longrightarrow> fault w' c = fault w c))"

text \<open>
  The goroutine of the writer's ticker takes the steps of a schedule; the clock of the
  world is set; the time of an event, if it has one, is in the hour \<open>h\<close>.
\<close>

definition clock_runs :: "event list \<Rightarrow> FileWriter \<Rightarrow> FileWriter" where
  "clock_runs es fw = fw\<lparr>hourlyTicker := run es (hourlyTicker fw)\<rparr>"

definition at_time :: "Time \<Rightarrow> world \<Rightarrow> world" where
  "at_time t w = w\<lparr>now := t\<rparr>"

fun same_hour :: "nat \<Rightarrow> event \<Rightarrow> bool" where
  "same_hour h (Start t) = (Hour t = h)"
| "same_hour h (Tick t) = (Hour t = h)"
| "same_hour h Quit = True"

text \<open>
  The last three statements of \<open>Write\<close> on their own (\<open>fw.checkFile()\<close>, the
  \<open>Fprint\<close> and the \<open>return\<close>): the write path without the forwarding.
\<close>

definition Write_storage ::
  "FileWriter \<Rightarrow> string \<Rightarrow> world \<Rightarrow> (error, error option) outcome \<times> FileWriter \<times> world" where
  "Write_storage fw msg w =
     (case checkFile fw w of
        (Panic err, fw2, w2) \<Rightarrow> (Panic err, fw2, w2)
      | (Return _, fw2, w2) \<Rightarrow>
          (case File_Write (fd fw2) msg w2 of (err, w3) \<Rightarrow> (Return err, fw2, w3)))"

text \<open>The calls on files that are open: those \<open>Write\<close> makes when it does not rotate.\<close>

fun file_call :: "call \<Rightarrow> bool" where
  "file_call (FileWrite p b) = True"
| "file_call (FileSync p) = True"
| "file_call (FileClose p) = True"
| "file_call _ = False"

subsection \<open>Concrete values\<close>

definition at :: "nat \<Rightarrow> nat \<Rightarrow> nat \<Rightarrow> Time" where
  "at h m s = \<lparr>Year = 2024, Month = 3, Day = 9, Hour = h, Minute = m, Second = s\<rparr>"

definition no_fault :: "call \<Rightarrow> errno option" where
  "no_fault c = None"

definition world0 :: world where
  "world0 =
     \<lparr>fs = [(''/var'', Dir), (''/var/log'', Dir)], cwd = ''/srv/app'', now = at 14 59 59,
      fault = no_fault, trace = []\<rparr>"

definition writer0 :: FileWriter where
  "writer0 = NewFileWriter ''/var/log/app'' ''logbot'' ''https://hooks.example/T0'' ''#ops''"


text \<open>
  The writer and the world after \<open>Init\<close> at 14:59:59, the clock task waiting at its
  \<open>select\<close> with the hour 14.
\<close>

definition writer1 :: FileWriter where
  "writer1 =
     \<lparr>level = 0, filepath = ''/var/log/app'',
      fd = Some \<lparr>name = ''/var/log/app/text_2024-03-09_14.log'',
                  entry = ''/var/log/app/text_2024-03-09_14.log'', closed = False\<rparr>,
      url = ''https://hooks.example/T0'',
      slack = \<lparr>Text = [], Username = ''logbot'', Channel = ''#ops''\<rparr>,
      hourlyTicker = \<lparr>quitCh_closed = False, task = AtSelect 14\<rparr>\<rparr>"

definition world1 :: world where
  "world1 =
     \<lparr>fs = [(''/var/log/app/text_2024-03-09_14.log'', Regular []),
            (''/var/log/app/text.log'', Link ''text_2024-03-09_14.log''),
            (''/var/log/app'', Dir), (''/var'', Dir), (''/var/log'', Dir)],
      cwd = ''/srv/app'', now = at 14 59 59, fault = no_fault, trace = []\<rparr>"


text \<open>The same world with a directory where the file of the next hour would be.\<close>

definition world1_blocked :: world where
  "world1_blocked =
     world1\<lparr>fs := (''/var/log/app/text_2024-03-09_15.log'', Dir) # fs world1\<rparr>"


text \<open>A world in which the alias \<open>text.log\<close> is a directory that is not empty.\<close>

definition world_alias_dir :: world where
  "world_alias_dir =
     world0\<lparr>fs := [(''/var'', Dir), (''/var/log'', Dir), (''/var/log/app'', Dir),
                   (''/var/log/app/text.log'', Dir),
                   (''/var/log/app/text.log/keep'', Regular ''x'')]\<rparr>"


section \<open>Facts about the library calls and \<open>Init\<close>\<close>


lemma Init_unfold:
  "Init fw w =
     (case Init_dir fw w of (fw2, w2) \<Rightarrow>
        (case os_MkdirAll (filepath fw2) w2 of
           (Some err, w3) \<Rightarrow> (Panic err, fw2, w3)
         | (None, w3) \<Rightarrow>
             (let logFile = ''text_'' @ Format (now w3) @ ''.log'';
                  linkFile = Join [filepath fw2, ''text.log''];
                  (st, w4) = os_Lstat linkFile w3;
                  err = (case st of Inl e \<Rightarrow> Some e | Inr _ \<Rightarrow> None);
                  w5 = (if err = None \<or> IsExist err then snd (os_Remove linkFile w4) else w4);
                  w6 = snd (os_Symlink logFile linkFile w5)
              in case os_OpenFile (Join [filepath fw2, logFile]) w6 of
                   (Inl err, w7) \<Rightarrow> (Return (Some err), fw2, w7)
                 | (Inr f, w7) \<Rightarrow> (Return None, fw2\<lparr>fd := Some f\<rparr>, w7))))"
  by (simp add: Init_def Init_dir_def Let_def split: prod.splits)

declare Join.simps [simp del]

lemma IsAbs_Clean: "IsAbs p \<Longrightarrow> IsAbs (Clean p)"
  by (simp add: Clean_def Let_def IsAbs_def)





lemma MkdirAll_empty: "os_MkdirAll [] w = (Some (PathError ''mkdir'' [] (Errno ENOENT)), w)"
  by (simp add: os_MkdirAll_def key_of_def)



lemma logged_sel [simp]:
  "fs (logged c r w) = fs w" "cwd (logged c r w) = cwd w" "now (logged c r w) = now w"
  "fault (logged c r w) = fault w" "trace (logged c r w) = trace w @ [(c, r)]"
  by (simp_all add: logged_def)

lemma put_sel [simp]:
  "cwd (put k n w) = cwd w" "now (put k n w) = now w"
  "fault (put k n w) = fault w" "trace (put k n w) = trace w"
  by (simp_all add: put_def)

lemma del_sel [simp]:
  "cwd (del k w) = cwd w" "now (del k w) = now w"
  "fault (del k w) = fault w" "trace (del k w) = trace w"
  by (simp_all add: del_def)

lemma key_of_cong [simp]:
  "key_of (logged c r w) p = key_of w p" "key_of (put k n w) p = key_of w p"
  "key_of (del k w) p = key_of w p"
  by (simp_all add: key_of_def)

lemma node_at_logged [simp]: "node_at (logged c r w) k = node_at w k"
  by (simp add: node_at_def)

lemma map_of_filter_other:
  "q \<noteq> k \<Longrightarrow> map_of (filter (\<lambda>e. fst e \<noteq> k) xs) q = map_of xs q"
  by (induction xs) auto

lemma map_of_filter_same:
  "map_of (filter (\<lambda>e. fst e \<noteq> k) xs) k = None"
  by (induction xs) auto

lemma node_at_put:
  "node_at (put k n w) q =
     (if q = ''/'' then Some Dir else if q = k then Some n else node_at w q)"
  by (simp add: node_at_def put_def map_of_filter_other)

lemma node_at_del:
  "node_at (del k w) q =
     (if q = ''/'' then Some Dir else if q = k then None else node_at w q)"
  by (simp add: node_at_def del_def map_of_filter_other map_of_filter_same)

lemma node_at_root [simp]: "node_at w ''/'' = Some Dir"
  by (simp add: node_at_def)

lemma Getwd_frame:
  "os_Getwd w = (r, w') \<Longrightarrow> \<exists>e. w' = logged Getwd e w"
  by (auto simp: os_Getwd_def split: option.splits)

lemma Lstat_frame:
  "os_Lstat p w = (r, w') \<Longrightarrow>
     \<exists>e. w' = logged (Lstat p) e w
       \<and> (case e of None \<Rightarrow> \<exists>n. r = Inr n
           | Some x \<Rightarrow> r = Inl (PathError ''lstat'' p (Errno x)))"
  by (auto simp: os_Lstat_def Let_def split: option.splits sum.splits)

lemma Remove_frame:
  "os_Remove p w = (r, w') \<Longrightarrow>
     \<exists>e. trace w' = trace w @ [(Remove p, e)] \<and> only_fs_trace w w'"
  by (auto simp: os_Remove_def Let_def only_fs_trace_def split: option.splits sum.splits)

lemma Symlink_frame:
  "os_Symlink old new w = (r, w') \<Longrightarrow>
     \<exists>e. trace w' = trace w @ [(Symlink old new, e)] \<and> only_fs_trace w w'
       \<and> (e = None) = (r = None)
       \<and> (r = None \<longrightarrow> lookup w' new = Some (Link old))"
  by (auto simp: os_Symlink_def Let_def only_fs_trace_def lookup_def node_at_put split: option.splits sum.splits if_splits)

lemma follow_not_link:
  "follow n w k = Inr q \<Longrightarrow> node_at w q \<noteq> Some (Link t)"
  by (induction n w k rule: follow.induct) (auto split: option.splits node.splits if_splits)

lemma OpenFile_frame:
  "os_OpenFile p w = (r, w') \<Longrightarrow>
     \<exists>e. trace w' = trace w @ [(OpenFile p, e)] \<and> only_fs_trace w w'
       \<and> (e = None) = (\<exists>f. r = Inr f)"
  by (auto simp: os_OpenFile_def Let_def only_fs_trace_def split: option.splits sum.splits if_splits node.splits prod.splits)

lemma OpenFile_ok:
  assumes "os_OpenFile p w = (Inr f, w')"
  shows "name f = p \<and> \<not> closed f
       \<and> (\<exists>content. node_at w' (entry f) = Some (Regular content))
       \<and> (\<forall>k t. node_at w k = Some (Link t) \<longrightarrow> node_at w' k = Some (Link t))"
  using assms
  apply (auto simp: os_OpenFile_def Let_def node_at_put split: option.splits sum.splits if_splits node.splits prod.splits dest: follow_not_link)
  done

lemma IsAbs_Clean_append: "IsAbs pre \<Longrightarrow> IsAbs (Clean (pre @ x))"
  by (cases pre) (simp_all add: IsAbs_Clean IsAbs_def Clean_def Let_def)

lemma mkdir_from_frame:
  "mkdir_from pre cs w = (r, w') \<Longrightarrow> IsAbs pre \<Longrightarrow>
     \<exists>xs. trace w' = trace w @ xs \<and> only_fs_trace w w'
        \<and> list_all (\<lambda>c. abs_call (fst c) \<and> \<not> alias_call (fst c) \<and> \<not> is_post (fst c)) xs"
proof (induction pre cs w arbitrary: r w' rule: mkdir_from.induct)
  case (1 pre w)
  then show ?case by (simp add: only_fs_trace_def)
next
  case (2 pre c cs w)
  let ?k = "Clean (pre @ ''/'' @ c)"
  have abs: "IsAbs ?k" using "2.prems"(2) by (rule IsAbs_Clean_append)
  show ?case
  proof (cases "node_at w ?k")
    case None
    note nk = this
    show ?thesis
    proof (cases "fault w (Mkdir ?k)")
      case None
      with nk "2.prems" have
        "mkdir_from ?k cs (logged (Mkdir ?k) None (put ?k Dir w)) = (r, w')"
        by (simp add: Let_def)
      from "2.IH"(1) [OF refl nk None this abs]
      obtain xs where "trace w' = trace (logged (Mkdir ?k) None (put ?k Dir w)) @ xs"
        "only_fs_trace (logged (Mkdir ?k) None (put ?k Dir w)) w'"
        "list_all (\<lambda>c. abs_call (fst c) \<and> \<not> alias_call (fst c) \<and> \<not> is_post (fst c)) xs"
        by blast
      then show ?thesis using abs
        by (intro exI [of _ "(Mkdir ?k, None) # xs"]) (simp add: only_fs_trace_def)
    next
      case (Some e)
      with nk "2.prems" abs show ?thesis
        by (intro exI [of _ "[(Mkdir ?k, Some e)]"]) (auto simp: Let_def only_fs_trace_def)
    qed
  next
    case (Some n)
    show ?thesis
    proof (cases n)
      case Dir
      with Some "2.prems" have "mkdir_from ?k cs w = (r, w')" by (simp add: Let_def)
      from "2.IH"(2) [OF refl Some Dir this abs] show ?thesis .
    next
      case (Regular x)
      with Some "2.prems" show ?thesis by (simp add: Let_def only_fs_trace_def)
    next
      case (Link x)
      with Some "2.prems" show ?thesis by (simp add: Let_def only_fs_trace_def)
    qed
  qed
qed

lemma MkdirAll_frame:
  assumes "os_MkdirAll p w = (r, w')"
  shows "\<exists>xs. trace w' = trace w @ xs \<and> only_fs_trace w w'
        \<and> list_all (\<lambda>c. abs_call (fst c) \<and> \<not> alias_call (fst c) \<and> \<not> is_post (fst c)) xs"
proof (cases "key_of w p")
  case None
  with assms show ?thesis by (simp add: os_MkdirAll_def only_fs_trace_def)
next
  case (Some k)
  obtain e w1 where m: "mkdir_from ''/'' (filter (\<lambda>c. c \<noteq> []) (split_sep k)) w = (e, w1)"
    by (cases "mkdir_from ''/'' (filter (\<lambda>c. c \<noteq> []) (split_sep k)) w") auto
  with Some assms have "w' = w1" by (auto simp: os_MkdirAll_def split: option.splits)
  with mkdir_from_frame [OF m] show ?thesis by (simp add: IsAbs_def)
qed

lemma Init_Return:
  assumes "Init fw w = (Return r, fw', w')"
  shows "\<exists>fw2 w2 w3 st w4 w5 e w6 res.
      Init_dir fw w = (fw2, w2)
    \<and> os_MkdirAll (filepath fw2) w2 = (None, w3)
    \<and> os_Lstat (Join [filepath fw2, ''text.log'']) w3 = (st, w4)
    \<and> w5 = (if (case st of Inl e \<Rightarrow> Some e | Inr _ \<Rightarrow> None) = None
                \<or> IsExist (case st of Inl e \<Rightarrow> Some e | Inr _ \<Rightarrow> None)
             then snd (os_Remove (Join [filepath fw2, ''text.log'']) w4) else w4)
    \<and> os_Symlink (''text_'' @ Format (now w3) @ ''.log'') (Join [filepath fw2, ''text.log'']) w5 = (e, w6)
    \<and> os_OpenFile (Join [filepath fw2, ''text_'' @ Format (now w3) @ ''.log'']) w6 = (res, w')
    \<and> fw' = (case res of Inl _ \<Rightarrow> fw2 | Inr f \<Rightarrow> fw2\<lparr>fd := Some f\<rparr>)
    \<and> r = (case res of Inl e \<Rightarrow> Some e | Inr _ \<Rightarrow> None)"
proof -
  obtain fw2 w2 where d: "Init_dir fw w = (fw2, w2)"
    by (cases "Init_dir fw w")
  obtain m w3 where mk: "os_MkdirAll (filepath fw2) w2 = (m, w3)"
    by (cases "os_MkdirAll (filepath fw2) w2")
  have m: "m = None"
    using assms d mk by (cases m) (simp_all add: Init_unfold)
  let ?link = "Join [filepath fw2, ''text.log'']"
  let ?lf = "''text_'' @ Format (now w3) @ ''.log''"
  obtain st w4 where l: "os_Lstat ?link w3 = (st, w4)"
    by (cases "os_Lstat ?link w3")
  let ?err = "case st of Inl e \<Rightarrow> Some e | Inr _ \<Rightarrow> None"
  let ?w5 = "if ?err = None \<or> IsExist ?err then snd (os_Remove ?link w4) else w4"
  obtain e w6 where s: "os_Symlink ?lf ?link ?w5 = (e, w6)"
    by (cases "os_Symlink ?lf ?link ?w5")
  obtain res w7 where o: "os_OpenFile (Join [filepath fw2, ?lf]) w6 = (res, w7)"
    by (cases "os_OpenFile (Join [filepath fw2, ?lf]) w6")
  have "Init fw w =
      (case res of Inl err \<Rightarrow> (Return (Some err), fw2, w7)
       | Inr f \<Rightarrow> (Return None, fw2\<lparr>fd := Some f\<rparr>, w7))"
    unfolding Init_unfold d mk m prod.case option.case Let_def l s snd_conv o ..
  with assms have
    "w7 = w'" "fw' = (case res of Inl _ \<Rightarrow> fw2 | Inr f \<Rightarrow> fw2\<lparr>fd := Some f\<rparr>)"
    "r = (case res of Inl e \<Rightarrow> Some e | Inr _ \<Rightarrow> None)"
    by (auto split: sum.splits)
  with d mk m l s o show ?thesis by blast
qed


lemma split_sep_nonempty [simp]: "split_sep p \<noteq> []"
  by (induction p) (auto split: list.splits)




lemma Init_dir_frame:
  "Init_dir fw w = (fw2, w2) \<Longrightarrow>
     \<exists>xs. trace w2 = trace w @ xs \<and> only_fs_trace w w2 \<and> fs w2 = fs w
       \<and> list_all (\<lambda>c. abs_call (fst c) \<and> \<not> alias_call (fst c) \<and> \<not> is_post (fst c)) xs"
  by (auto simp: Init_dir_def Abs_def os_Getwd_def Let_def only_fs_trace_def split: option.splits if_splits)


lemma OpenFile_links:
  assumes "os_OpenFile p w = (r, w')" and "node_at w k = Some (Link t)"
  shows "node_at w' k = Some (Link t)"
  using assms
  by (auto simp: os_OpenFile_def Let_def node_at_put
      split: option.splits sum.splits if_splits node.splits prod.splits dest: follow_not_link)

lemma lookup_frame:
  "cwd w' = cwd w \<Longrightarrow> lookup w' p = (case key_of w p of None \<Rightarrow> None | Some k \<Rightarrow> node_at w' k)"
  by (simp add: lookup_def key_of_def)

lemma lookup_key:
  "cwd w' = cwd w \<Longrightarrow> key_of w p = Some k \<Longrightarrow> lookup w' p = node_at w' k"
  by (simp add: lookup_frame)

lemma calls_since_append: "trace w' = trace w @ xs \<Longrightarrow> calls_since w w' = xs"
  by (simp add: calls_since_def)

lemma Init_calls:
  assumes "Init fw w = (Return r, fw', w')"
  shows "\<exists>pre e1 e2 e3 e4.
      calls_since w w' =
        pre @ [(Lstat (Join [filepath fw', ''text.log'']), e1)]
          @ (if e1 = None \<or> e1 = Some EEXIST \<or> e1 = Some ENOTEMPTY
             then [(Remove (Join [filepath fw', ''text.log'']), e2)] else [])
          @ [(Symlink (''text_'' @ Format (now w) @ ''.log'') (Join [filepath fw', ''text.log'']), e3),
             (OpenFile (Join [filepath fw', ''text_'' @ Format (now w) @ ''.log'']), e4)]
    \<and> list_all (\<lambda>c. abs_call (fst c) \<and> \<not> alias_call (fst c) \<and> \<not> is_post (fst c)) pre
    \<and> (e3 = None \<longrightarrow>
         lookup w' (Join [filepath fw', ''text.log''])
           = Some (Link (''text_'' @ Format (now w) @ ''.log'')))
    \<and> (e4 = None) = (r = None)
    \<and> only_fs_trace w w'"
proof -
  let ?P = "\<lambda>c. abs_call (fst c) \<and> \<not> alias_call (fst c) \<and> \<not> is_post (fst c)"
  from Init_Return [OF assms] obtain fw2 w2 w3 st w4 w5 e w6 res where
    d: "Init_dir fw w = (fw2, w2)"
    and m: "os_MkdirAll (filepath fw2) w2 = (None, w3)"
    and l: "os_Lstat (Join [filepath fw2, ''text.log'']) w3 = (st, w4)"
    and r5: "w5 = (if (case st of Inl e \<Rightarrow> Some e | Inr _ \<Rightarrow> None) = None
                \<or> IsExist (case st of Inl e \<Rightarrow> Some e | Inr _ \<Rightarrow> None)
             then snd (os_Remove (Join [filepath fw2, ''text.log'']) w4) else w4)"
    and s: "os_Symlink (''text_'' @ Format (now w3) @ ''.log'') (Join [filepath fw2, ''text.log'']) w5 = (e, w6)"
    and o: "os_OpenFile (Join [filepath fw2, ''text_'' @ Format (now w3) @ ''.log'']) w6 = (res, w')"
    and fw': "fw' = (case res of Inl _ \<Rightarrow> fw2 | Inr f \<Rightarrow> fw2\<lparr>fd := Some f\<rparr>)"
    and r: "r = (case res of Inl e \<Rightarrow> Some e | Inr _ \<Rightarrow> None)"
    by blast
  let ?link = "Join [filepath fw2, ''text.log'']"
  have fp: "filepath fw' = filepath fw2" using fw' by (simp split: sum.splits)
  from Init_dir_frame [OF d] obtain xs1 where
    t2: "trace w2 = trace w @ xs1" and f2: "only_fs_trace w w2" and p1: "list_all ?P xs1"
    by blast
  from MkdirAll_frame [OF m] obtain xs2 where
    t3: "trace w3 = trace w2 @ xs2" and f3: "only_fs_trace w2 w3" and p2: "list_all ?P xs2"
    by blast
  from Lstat_frame [OF l] obtain e1 where
    w4: "w4 = logged (Lstat ?link) e1 w3"
    and e1: "case e1 of None \<Rightarrow> \<exists>n. st = Inr n
             | Some x \<Rightarrow> st = Inl (PathError ''lstat'' ?link (Errno x))"
    by blast
  have st: "(case st of Inl e \<Rightarrow> Some e | Inr _ \<Rightarrow> None) = None \<longleftrightarrow> e1 = None"
    using e1 by (cases e1) auto
  have ex: "IsExist (case st of Inl e \<Rightarrow> Some e | Inr _ \<Rightarrow> None)
              \<longleftrightarrow> e1 = Some EEXIST \<or> e1 = Some ENOTEMPTY"
    using e1 by (cases e1) (auto simp: IsExist_def)
  have r5': "w5 = (if e1 = None \<or> e1 = Some EEXIST \<or> e1 = Some ENOTEMPTY
                   then snd (os_Remove ?link w4) else w4)"
    using r5 unfolding st ex .
  obtain e2 where
    t5: "trace w5 = trace w4 @ (if e1 = None \<or> e1 = Some EEXIST \<or> e1 = Some ENOTEMPTY
                                then [(Remove ?link, e2)] else [])"
    and f5: "only_fs_trace w4 w5"
  proof (cases "e1 = None \<or> e1 = Some EEXIST \<or> e1 = Some ENOTEMPTY")
    case True
    then have "w5 = snd (os_Remove ?link w4)" using r5' by (simp only: if_True)
    with Remove_frame [of ?link w4 "fst (os_Remove ?link w4)" w5]
    obtain e2 where "trace w5 = trace w4 @ [(Remove ?link, e2)]" "only_fs_trace w4 w5"
      by auto
    with True that [of e2] show ?thesis by (simp only: if_True)
  next
    case False
    then have "w5 = w4" using r5' by (simp only: if_False)
    with False that [of None] show ?thesis by (simp add: only_fs_trace_def)
  qed
  from Symlink_frame [OF s] obtain e3 where
    t6: "trace w6 = trace w5 @ [(Symlink (''text_'' @ Format (now w3) @ ''.log'') ?link, e3)]"
    and f6: "only_fs_trace w5 w6"
    and e3: "(e3 = None) = (e = None)"
    and lk: "e = None \<longrightarrow> lookup w6 ?link = Some (Link (''text_'' @ Format (now w3) @ ''.log''))"
    by blast
  from OpenFile_frame [OF o] obtain e4 where
    t7: "trace w' = trace w6 @ [(OpenFile (Join [filepath fw2, ''text_'' @ Format (now w3) @ ''.log'']), e4)]"
    and f7: "only_fs_trace w6 w'"
    and e4: "(e4 = None) = (\<exists>f. res = Inr f)"
    by blast
  have now3: "now w3 = now w" using f2 f3 by (simp add: only_fs_trace_def)
  have frame: "only_fs_trace w w'"
    using f2 f3 w4 f5 f6 f7 by (simp add: only_fs_trace_def)
  have cw: "cwd w' = cwd w6" using f7 by (simp add: only_fs_trace_def)
  have al: "e3 = None \<longrightarrow> lookup w' ?link = Some (Link (''text_'' @ Format (now w3) @ ''.log''))"
  proof
    assume "e3 = None"
    with e3 lk have a: "lookup w6 ?link = Some (Link (''text_'' @ Format (now w3) @ ''.log''))"
      by simp
    then obtain k where k: "key_of w6 ?link = Some k"
      and n: "node_at w6 k = Some (Link (''text_'' @ Format (now w3) @ ''.log''))"
      by (auto simp: lookup_def split: option.splits)
    from OpenFile_links [OF o n] lookup_key [OF cw k]
    show "lookup w' ?link = Some (Link (''text_'' @ Format (now w3) @ ''.log''))"
      by (simp only:)
  qed
  have tr: "trace w' = trace w @ ((xs1 @ xs2) @ [(Lstat ?link, e1)]
      @ (if e1 = None \<or> e1 = Some EEXIST \<or> e1 = Some ENOTEMPTY
         then [(Remove ?link, e2)] else [])
      @ [(Symlink (''text_'' @ Format (now w3) @ ''.log'') ?link, e3),
         (OpenFile (Join [filepath fw2, ''text_'' @ Format (now w3) @ ''.log'']), e4)])"
    using t2 t3 w4 t5 t6 t7 by simp
  have r4: "(e4 = None) = (r = None)" using e4 r by (auto split: sum.splits)
  show ?thesis
    apply (rule exI [of _ "xs1 @ xs2"], rule exI [of _ e1], rule exI [of _ e2],
           rule exI [of _ e3], rule exI [of _ e4])
    using calls_since_append [OF tr] p1 p2 al r4 frame
    by (simp only: fp now3 list_all_append simp_thms)
qed

section \<open>The hourly ticker\<close>

lemma parked_no_step:
  "task ht = AtSend hour t \<Longrightarrow> startTimer_step e ht = None"
  by (cases e) simp_all

lemma run_parked:
  "task ht = AtSend hour t \<Longrightarrow> run es ht = ht"
  by (induction es) (simp_all add: parked_no_step)

text \<open>
  C9, as the claim states it, fails: a second \<open>stop()\<close> on the same instance panics.
\<close>

theorem stop_twice_panics:
  "(case stop newHourlyTicker of
      Panic p \<Rightarrow> Panic p
    | Return ht \<Rightarrow> stop ht) = Panic ''close of closed channel''"
  by (simp add: stop_def newHourlyTicker_def)

text \<open>
  C9 (amended): the first \<open>stop()\<close> on an instance returns and closes the quit channel,
  which lets a task waiting in its \<open>select\<close> take the quit case and return; every later
  \<open>stop()\<close> on that instance panics.
\<close>

theorem stop_first_closes_second_panics:
  assumes "\<not> quitCh_closed ht"
  shows "stop ht = Return (ht\<lparr>quitCh_closed := True\<rparr>)
       \<and> stop (ht\<lparr>quitCh_closed := True\<rparr>) = Panic ''close of closed channel''
       \<and> (task ht = AtSelect hour \<longrightarrow>
            startTimer_step Quit (ht\<lparr>quitCh_closed := True\<rparr>)
              = Some (ht\<lparr>quitCh_closed := True, task := Finished\<rparr>))"
  using assms by (simp add: stop_def)

theorem stop_first_closes_second_panics_witness:
  "stop (run [Start (at 14 0 0)] newHourlyTicker)
     = Return \<lparr>quitCh_closed = True, task = AtSelect 14\<rparr>
   \<and> stop \<lparr>quitCh_closed = True, task = AtSelect 14\<rparr> = Panic ''close of closed channel''
   \<and> startTimer_step Quit \<lparr>quitCh_closed = True, task = AtSelect 14\<rparr>
       = Some \<lparr>quitCh_closed = True, task = Finished\<rparr>"
  using stop_first_closes_second_panics
    [of "run [Start (at 14 0 0)] newHourlyTicker" 14]
  by (simp add: newHourlyTicker_def at_def)

text \<open>
  C2, as the claim states it, fails: the send is a blocking send on an unbuffered
  channel. After an hour transition that no \<open>Write\<close> receives, the task is parked in the
  send; \<open>stop()\<close> and every later offer of the quit case or of a tick leave it there.
\<close>

theorem parked_clock_not_cancelled:
  "task (run [Start (at 14 59 58), Tick (at 14 59 59), Tick (at 15 0 0)] newHourlyTicker)
     = AtSend 14 (at 15 0 0)
   \<and> (case stop (run [Start (at 14 59 58), Tick (at 14 59 59), Tick (at 15 0 0)]
                  newHourlyTicker) of
        Panic p \<Rightarrow> None
      | Return ht \<Rightarrow>
          Some (task (run [Quit, Tick (at 15 0 1), Quit, Tick (at 16 0 0), Quit] ht)))
     = Some (AtSend 14 (at 15 0 0))"
  by (simp add: newHourlyTicker_def stop_def at_def)

text \<open>
  C2 (amended): for every hour transition observed by the clock task, the boundary event
  is offered by a blocking send on an unbuffered channel. The task is parked in that
  send until a \<open>Write\<close>'s poll receives the event; no schedule of ticks and quit offers
  moves it meanwhile, so later transitions are not observed and at most one event is
  outstanding. The receive hands over the tick and puts the task back at its \<open>select\<close>
  with the tick's hour; a task at its \<open>select\<close> offers no event.
\<close>

theorem boundary_event_rendezvous:
  assumes "task ht = AtSelect hour" and "Hour t \<noteq> hour"
  shows "startTimer_step (Tick t) ht = Some (ht\<lparr>task := AtSend hour t\<rparr>)
       \<and> run es (ht\<lparr>task := AtSend hour t\<rparr>) = ht\<lparr>task := AtSend hour t\<rparr>
       \<and> recv_C (ht\<lparr>task := AtSend hour t\<rparr>) = Some (t, ht\<lparr>task := AtSelect (Hour t)\<rparr>)
       \<and> recv_C ht = None"
proof -
  have "run es (ht\<lparr>task := AtSend hour t\<rparr>) = ht\<lparr>task := AtSend hour t\<rparr>"
    by (rule run_parked [where hour = hour and t = t]) simp
  with assms show ?thesis
    by (simp add: recv_C_def)
qed

theorem boundary_event_rendezvous_witness:
  "startTimer_step (Tick (at 15 0 0)) \<lparr>quitCh_closed = True, task = AtSelect 14\<rparr>
     = Some \<lparr>quitCh_closed = True, task = AtSend 14 (at 15 0 0)\<rparr>
   \<and> run [Quit, Tick (at 16 0 0)] \<lparr>quitCh_closed = True, task = AtSend 14 (at 15 0 0)\<rparr>
     = \<lparr>quitCh_closed = True, task = AtSend 14 (at 15 0 0)\<rparr>
   \<and> recv_C \<lparr>quitCh_closed = True, task = AtSend 14 (at 15 0 0)\<rparr>
     = Some (at 15 0 0, \<lparr>quitCh_closed = True, task = AtSelect 15\<rparr>)
   \<and> recv_C \<lparr>quitCh_closed = True, task = AtSelect 14\<rparr> = None"
  using boundary_event_rendezvous
    [of "\<lparr>quitCh_closed = True, task = AtSelect 14\<rparr>" 14 "at 15 0 0" "[Quit, Tick (at 16 0 0)]"]
  by (simp add: at_def)


section \<open>\<open>Init\<close>: directory, hourly file and alias\<close>







text \<open>
  When the working directory cannot be determined, \<open>filepath.Abs\<close> leaves the empty
  path, on which \<open>os.MkdirAll\<close> fails: \<open>Init\<close> panics before it creates anything.
\<close>

lemma Init_Getwd_failure:
  assumes "\<not> IsAbs (filepath fw)" and "fault w Getwd = Some e"
  shows "Init fw w =
     (Panic (PathError ''mkdir'' [] (Errno ENOENT)), fw\<lparr>filepath := []\<rparr>, logged Getwd (Some e) w)"
proof -
  have "Init_dir fw w = (fw\<lparr>filepath := []\<rparr>, logged Getwd (Some e) w)"
    using assms by (simp add: Init_dir_def Abs_def os_Getwd_def Let_def IsAbs_def)
  then show ?thesis
    by (simp add: Init_unfold MkdirAll_empty)
qed



lemma itoa_small: "n < 10 \<Longrightarrow> itoa n = [digit n]"
  by (simp add: itoa.simps)

lemma itoa_two: "10 \<le> n \<Longrightarrow> n < 100 \<Longrightarrow> itoa n = [digit (n div 10), digit (n mod 10)]"
  by (subst itoa.simps) (simp add: itoa_small)

lemma digit_0: "digit 0 = CHR ''0''"
  by code_simp

text \<open>A value below 100 is printed as its two decimal digits: the hour is zero-padded.\<close>

lemma appendInt_two_digits:
  "n < 100 \<Longrightarrow> appendInt n 2 = [digit (n div 10), digit (n mod 10)]"
  by (cases "n < 10") (simp_all add: appendInt_def itoa_small itoa_two digit_0)

text \<open>
  C8, as the claim states it, fails: the results of \<open>os.Remove\<close> and \<open>os.Symlink\<close> are
  dropped. Where \<open>text.log\<close> is a directory that is not empty, \<open>Init\<close> succeeds and
  opens the hourly file, and \<open>text.log\<close> is still that directory.
\<close>

theorem Init_succeeds_alias_not_recreated:
  "(case Init writer0 world_alias_dir of
      (r, fw', w') \<Rightarrow>
        r = Return None
        \<and> fd fw' = Some \<lparr>name = ''/var/log/app/text_2024-03-09_14.log'',
                          entry = ''/var/log/app/text_2024-03-09_14.log'', closed = False\<rparr>
        \<and> lookup w' ''/var/log/app/text.log'' = Some Dir)"
  by code_simp

text \<open>
  C8 (amended): for every successful \<open>Init\<close> (also the one of a rotation, which is
  this function), the descriptor installed is the file \<open>text_<YYYY-MM-DD>_<HH>.log\<close> of
  the current time in the base directory, a regular file; on the alias \<open>text.log\<close> of
  the base directory \<open>Init\<close> calls \<open>Lstat\<close>, then \<open>Remove\<close> when \<open>Lstat\<close> found an
  entry, then \<open>Symlink\<close> to the hourly file's name, in this order and before the file is
  opened, and ignores their failures; whenever that \<open>Symlink\<close> call succeeds the alias
  refers to the hourly file when \<open>Init\<close> returns.
\<close>

theorem Init_hourly_file_and_alias:
  assumes "Init fw w = (Return None, fw', w')"
    and "logFile = ''text_'' @ appendInt (Year (now w)) 4 @ ''-'' @ appendInt (Month (now w)) 2
           @ ''-'' @ appendInt (Day (now w)) 2 @ ''_'' @ appendInt (Hour (now w)) 2 @ ''.log''"
    and "linkFile = Join [filepath fw', ''text.log'']"
  shows "\<exists>en content pre e1 e2 e3.
       fd fw' = Some \<lparr>name = Join [filepath fw', logFile], entry = en, closed = False\<rparr>
     \<and> node_at w' en = Some (Regular content)
     \<and> calls_since w w' =
         pre @ [(Lstat linkFile, e1)]
           @ (if e1 = None \<or> e1 = Some EEXIST \<or> e1 = Some ENOTEMPTY
              then [(Remove linkFile, e2)] else [])
           @ [(Symlink logFile linkFile, e3), (OpenFile (Join [filepath fw', logFile]), None)]
     \<and> list_all (\<lambda>c. \<not> alias_call (fst c)) pre
     \<and> (e3 = None \<longrightarrow> lookup w' linkFile = Some (Link logFile))"
proof -
  have lf: "logFile = ''text_'' @ Format (now w) @ ''.log''"
    using assms(2) by (simp add: Format_def)
  from Init_Return [OF assms(1)] obtain fw2 w2 w3 st w4 w5 e w6 res where
    "Init_dir fw w = (fw2, w2)"
    and "os_MkdirAll (filepath fw2) w2 = (None, w3)"
    and "os_Lstat (Join [filepath fw2, ''text.log'']) w3 = (st, w4)"
    and "w5 = (if (case st of Inl e \<Rightarrow> Some e | Inr _ \<Rightarrow> None) = None
                \<or> IsExist (case st of Inl e \<Rightarrow> Some e | Inr _ \<Rightarrow> None)
             then snd (os_Remove (Join [filepath fw2, ''text.log'']) w4) else w4)"
    and "os_Symlink (''text_'' @ Format (now w3) @ ''.log'') (Join [filepath fw2, ''text.log'']) w5 = (e, w6)"
    and o: "os_OpenFile (Join [filepath fw2, ''text_'' @ Format (now w3) @ ''.log'']) w6 = (res, w')"
    and fw': "fw' = (case res of Inl _ \<Rightarrow> fw2 | Inr f \<Rightarrow> fw2\<lparr>fd := Some f\<rparr>)"
    and r: "None = (case res of Inl e \<Rightarrow> Some e | Inr _ \<Rightarrow> None)"
    by blast
  from r obtain f where res: "res = Inr f" by (cases res) auto
  from OpenFile_ok [OF o [unfolded res]] obtain content where
    f: "name f = Join [filepath fw2, ''text_'' @ Format (now w3) @ ''.log'']" "\<not> closed f"
    and reg: "node_at w' (entry f) = Some (Regular content)"
    by blast
  from Init_calls [OF assms(1)] obtain pre e1 e2 e3 e4 where
    c: "calls_since w w' =
        pre @ [(Lstat (Join [filepath fw', ''text.log'']), e1)]
          @ (if e1 = None \<or> e1 = Some EEXIST \<or> e1 = Some ENOTEMPTY
             then [(Remove (Join [filepath fw', ''text.log'']), e2)] else [])
          @ [(Symlink (''text_'' @ Format (now w) @ ''.log'') (Join [filepath fw', ''text.log'']), e3),
             (OpenFile (Join [filepath fw', ''text_'' @ Format (now w) @ ''.log'']), e4)]"
    and pre: "list_all (\<lambda>c. abs_call (fst c) \<and> \<not> alias_call (fst c) \<and> \<not> is_post (fst c)) pre"
    and al: "e3 = None \<longrightarrow>
         lookup w' (Join [filepath fw', ''text.log''])
           = Some (Link (''text_'' @ Format (now w) @ ''.log''))"
    and e4: "(e4 = None) = (None = (None :: error option))"
    and "only_fs_trace w w'"
    by blast
  have e4': "e4 = None" using e4 by simp
  have "calls_since w w' \<noteq> []" using c by simp
  then have "last (calls_since w w') = last (trace w')"
    by (simp add: calls_since_def last_drop)
  also have "\<dots> = (OpenFile (Join [filepath fw2, ''text_'' @ Format (now w3) @ ''.log'']), None)"
    using OpenFile_frame [OF o] res by auto
  finally have last: "last (calls_since w w')
      = (OpenFile (Join [filepath fw2, ''text_'' @ Format (now w3) @ ''.log'']), None)" .
  have nm: "Join [filepath fw2, ''text_'' @ Format (now w3) @ ''.log'']
      = Join [filepath fw', logFile]"
    using last c lf by simp
  have fd: "fd fw' = Some \<lparr>name = Join [filepath fw', logFile], entry = entry f, closed = False\<rparr>"
    using fw' res f nm by simp
  have p: "list_all (\<lambda>c. \<not> alias_call (fst c)) pre"
    using pre by (simp add: list_all_iff)
  have c': "calls_since w w' =
         pre @ [(Lstat linkFile, e1)]
           @ (if e1 = None \<or> e1 = Some EEXIST \<or> e1 = Some ENOTEMPTY
              then [(Remove linkFile, e2)] else [])
           @ [(Symlink logFile linkFile, e3), (OpenFile (Join [filepath fw', logFile]), None)]"
    using c unfolding e4' lf [symmetric] assms(3) [symmetric] .
  have al': "e3 = None \<longrightarrow> lookup w' linkFile = Some (Link logFile)"
    using al unfolding lf [symmetric] assms(3) [symmetric] .
  show ?thesis
    apply (rule exI [of _ "entry f"], rule exI [of _ content], rule exI [of _ pre],
           rule exI [of _ e1], rule exI [of _ e2], rule exI [of _ e3])
    using fd reg c' p al' by (simp only: simp_thms)
qed

theorem Init_hourly_file_and_alias_witness:
  "fst (Init writer0 world0) = Return None
   \<and> (\<exists>en content pre e1 e2 e3.
       fd (fst (snd (Init writer0 world0)))
         = Some \<lparr>name = Join [filepath (fst (snd (Init writer0 world0))), ''text_2024-03-09_14.log''],
                  entry = en, closed = False\<rparr>
     \<and> node_at (snd (snd (Init writer0 world0))) en = Some (Regular content)
     \<and> calls_since world0 (snd (snd (Init writer0 world0))) =
         pre @ [(Lstat (Join [filepath (fst (snd (Init writer0 world0))), ''text.log'']), e1)]
           @ (if e1 = None \<or> e1 = Some EEXIST \<or> e1 = Some ENOTEMPTY
              then [(Remove (Join [filepath (fst (snd (Init writer0 world0))), ''text.log'']), e2)]
              else [])
           @ [(Symlink ''text_2024-03-09_14.log''
                 (Join [filepath (fst (snd (Init writer0 world0))), ''text.log'']), e3),
              (OpenFile (Join [filepath (fst (snd (Init writer0 world0))),
                               ''text_2024-03-09_14.log'']), None)]
     \<and> list_all (\<lambda>c. \<not> alias_call (fst c)) pre
     \<and> (e3 = None \<longrightarrow>
          lookup (snd (snd (Init writer0 world0)))
            (Join [filepath (fst (snd (Init writer0 world0))), ''text.log''])
            = Some (Link ''text_2024-03-09_14.log'')))"
proof -
  have r: "fst (Init writer0 world0) = Return None"
    by code_simp
  then have h: "Init writer0 world0
      = (Return None, fst (snd (Init writer0 world0)), snd (snd (Init writer0 world0)))"
    by (simp add: prod_eq_iff)
  have lf: "''text_2024-03-09_14.log''
      = ''text_'' @ appendInt (Year (now world0)) 4 @ ''-'' @ appendInt (Month (now world0)) 2
           @ ''-'' @ appendInt (Day (now world0)) 2 @ ''_'' @ appendInt (Hour (now world0)) 2
           @ ''.log''"
    by code_simp
  from r Init_hourly_file_and_alias [OF h lf refl] show ?thesis
    by (rule conjI)
qed

text \<open>The concrete writer and world are those \<open>Init\<close> produces.\<close>

lemma writer1_from_Init:
  "(case Init writer0 world0 of
      (r, fw, w) \<Rightarrow>
        r = Return None \<and> clock_runs [Start (at 14 59 58)] fw = writer1 \<and> fs w = fs world1)"
  by code_simp


section \<open>\<open>Write\<close>: the forwarding does not reach the write path\<close>

lemma same_storage_refl [simp]: "same_storage w w"
  by (simp add: same_storage_def)

lemma same_storage_sym: "same_storage w w' \<Longrightarrow> same_storage w' w"
  by (simp add: same_storage_def)


















lemma Init_alt:
  "Init fw w =
     (let d = Init_dir fw w; fw2 = fst d; m = os_MkdirAll (filepath fw2) (snd d) in
      case fst m of
        Some err \<Rightarrow> (Panic err, fw2, snd m)
      | None \<Rightarrow>
          (let logFile = ''text_'' @ Format (now (snd m)) @ ''.log'';
               linkFile = Join [filepath fw2, ''text.log''];
               l = os_Lstat linkFile (snd m);
               err = (case fst l of Inl e \<Rightarrow> Some e | Inr _ \<Rightarrow> None);
               w5 = (if err = None \<or> IsExist err then snd (os_Remove linkFile (snd l)) else snd l);
               w6 = snd (os_Symlink logFile linkFile w5);
               res = os_OpenFile (Join [filepath fw2, logFile]) w6
           in case fst res of
                Inl err \<Rightarrow> (Return (Some err), fw2, snd res)
              | Inr f \<Rightarrow> (Return None, fw2\<lparr>fd := Some f\<rparr>, snd res)))"
  by (simp add: Init_unfold Let_def split: prod.splits option.splits sum.splits)


lemma checkFile_alt:
  "checkFile fw w =
     (case recv_C (hourlyTicker fw) of
        None \<Rightarrow> (Return (), fw, w)
      | Some (t, ht) \<Rightarrow>
          (let c = File_Close (fd fw) (snd (File_Sync (fd fw) w));
               i = Init (fw\<lparr>hourlyTicker := ht, fd := fst (snd c)\<rparr>) (snd (snd c))
           in (case fst i of Panic err \<Rightarrow> Panic err | Return _ \<Rightarrow> Return (), snd i)))"
  by (simp add: checkFile_def Let_def split: prod.splits outcome.splits option.splits)



lemma Write_alt:
  "Write LevelError fw msg lvl w =
     Write_storage fw msg (if lvl \<ge> LevelError then snd (postToSlack fw msg w) else w)"
  by (simp add: Write_def Write_storage_def Let_def)

lemma Write_storage_alt:
  "Write_storage fw msg v =
     (case fst (checkFile fw v) of
        Panic err \<Rightarrow> (Panic err, snd (checkFile fw v))
      | Return _ \<Rightarrow>
          (Return (fst (File_Write (fd (fst (snd (checkFile fw v)))) msg (snd (snd (checkFile fw v))))),
           fst (snd (checkFile fw v)),
           snd (File_Write (fd (fst (snd (checkFile fw v)))) msg (snd (snd (checkFile fw v))))))"
  by (simp add: Write_storage_def split: prod.splits outcome.splits)




section \<open>\<open>Write\<close>: alert requests\<close>

lemma posts_logged [simp]:
  "posts (logged c r w) = posts w @ (if is_post c then [c] else [])"
  by (simp add: posts_def logged_def)

lemma posts_put [simp]: "posts (put k n w) = posts w"
  by (simp add: posts_def put_def)

lemma posts_del [simp]: "posts (del k w) = posts w"
  by (simp add: posts_def del_def)

lemma posts_frame:
  "trace w' = trace w @ xs \<Longrightarrow> list_all (\<lambda>c. \<not> is_post (fst c)) xs \<Longrightarrow> posts w' = posts w"
  by (simp add: posts_def list_all_iff filter_empty_conv)

lemma posts_Init_dir [simp]: "posts (snd (Init_dir fw w)) = posts w"
proof -
  obtain fw2 w2 where d: "Init_dir fw w = (fw2, w2)" by (cases "Init_dir fw w")
  from Init_dir_frame [OF d] obtain xs where "trace w2 = trace w @ xs"
    "list_all (\<lambda>c. abs_call (fst c) \<and> \<not> alias_call (fst c) \<and> \<not> is_post (fst c)) xs"
    by blast
  then have "posts w2 = posts w"
    by (intro posts_frame [of w2 w xs]) (simp_all add: list_all_iff)
  with d show ?thesis by simp
qed

lemma posts_MkdirAll [simp]: "posts (snd (os_MkdirAll p w)) = posts w"
proof -
  obtain r w2 where d: "os_MkdirAll p w = (r, w2)" by (cases "os_MkdirAll p w")
  from MkdirAll_frame [OF d] obtain xs where "trace w2 = trace w @ xs"
    "list_all (\<lambda>c. abs_call (fst c) \<and> \<not> alias_call (fst c) \<and> \<not> is_post (fst c)) xs"
    by blast
  then have "posts w2 = posts w"
    by (intro posts_frame [of w2 w xs]) (simp_all add: list_all_iff)
  with d show ?thesis by simp
qed

lemma posts_Lstat [simp]: "posts (snd (os_Lstat p w)) = posts w"
  by (auto simp: os_Lstat_def Let_def split: option.splits sum.splits)

lemma posts_Remove [simp]: "posts (snd (os_Remove p w)) = posts w"
  by (auto simp: os_Remove_def Let_def split: option.splits sum.splits node.splits)

lemma posts_Symlink [simp]: "posts (snd (os_Symlink old new w)) = posts w"
  by (auto simp: os_Symlink_def Let_def split: option.splits sum.splits)

lemma posts_OpenFile [simp]: "posts (snd (os_OpenFile p w)) = posts w"
  by (auto simp: os_OpenFile_def Let_def split: option.splits sum.splits node.splits prod.splits)

lemma posts_File_Write [simp]: "posts (snd (File_Write fo b w)) = posts w"
  by (auto simp: File_Write_def split: option.splits node.splits)

lemma posts_File_Sync [simp]: "posts (snd (File_Sync fo w)) = posts w"
  by (auto simp: File_Sync_def split: option.splits)

lemma posts_File_Close [simp]: "posts (snd (snd (File_Close fo w))) = posts w"
  by (auto simp: File_Close_def split: option.splits)

lemma posts_Init [simp]: "posts (snd (snd (Init fw w))) = posts w"
  by (simp add: Init_alt Let_def split: option.splits sum.splits)

lemma posts_checkFile [simp]: "posts (snd (snd (checkFile fw w))) = posts w"
  by (simp add: checkFile_alt Let_def split: option.splits prod.splits)

lemma posts_Write_storage [simp]: "posts (snd (snd (Write_storage fw msg w))) = posts w"
  by (cases "fst (checkFile fw w)") (simp_all add: Write_storage_alt)





section \<open>\<open>Write\<close>: closed descriptors and rotation\<close>

lemma checkFile_no_event:
  "recv_C (hourlyTicker fw) = None \<Longrightarrow> checkFile fw w = (Return (), fw, w)"
  by (simp add: checkFile_def)

lemma Write_no_event:
  assumes "recv_C (hourlyTicker fw) = None"
  shows "Write LevelError fw msg lvl w =
     (Return (fst (File_Write (fd fw) msg
                (if lvl \<ge> LevelError then snd (postToSlack fw msg w) else w))),
      fw,
      snd (File_Write (fd fw) msg
             (if lvl \<ge> LevelError then snd (postToSlack fw msg w) else w)))"
  using assms
  by (simp add: Write_alt Write_storage_def checkFile_no_event split: prod.splits)

lemma Close_fd:
  assumes "Close fw w = (e, fw', w')"
  shows "fw' = fw\<lparr>fd := fd fw'\<rparr>
       \<and> (case fd fw of None \<Rightarrow> fd fw' = None
           | Some f \<Rightarrow> fd fw' = Some (f\<lparr>closed := True\<rparr>))"
  using assms
  by (auto simp: Close_def File_Close_def split: option.splits if_splits prod.splits)

text \<open>
  C3, as the claim states it, fails: \<open>Write\<close> has no closed-state check. When a boundary
  event is pending, a \<open>Write\<close> after \<open>Close\<close> rotates: it opens the file of the new hour,
  writes the message to it and returns no error.
\<close>

theorem Write_after_Close_reopens:
  "(case Close (clock_runs [Tick (at 15 0 0)] writer1) world1 of
     (e, fw, w) \<Rightarrow>
       e = None \<and> map_option closed (fd fw) = Some True
       \<and> (case Write 3 fw ''hello'' 0 (at_time (at 15 0 1) w) of
            (r, fw', w') \<Rightarrow>
              r = Return None \<and> map_option closed (fd fw') = Some False
              \<and> lookup w' ''/var/log/app/text_2024-03-09_15.log'' = Some (Regular ''hello'')))"
  by code_simp

text \<open>
  C3 (amended): for every sink on which \<open>Close\<close> has been called, a subsequent \<open>Write\<close>
  call that finds no pending boundary event returns the error of the write on the
  closed descriptor (\<open>ErrClosed\<close> with the file's name, \<open>ErrInvalid\<close> when there never
  was a descriptor) and leaves the writer as it is; the world changes by the alert
  request only.
\<close>

theorem Write_after_Close:
  assumes "Close fw w = (e, fw', w')" and "recv_C (hourlyTicker fw') = None"
  shows "Write LevelError fw' msg lvl w1 =
     (Return (Some (case fd fw of
                      None \<Rightarrow> ErrInvalid
                    | Some f \<Rightarrow> PathError ''write'' (name f) ErrClosed)),
      fw',
      if lvl \<ge> LevelError then snd (postToSlack fw' msg w1) else w1)"
proof (cases "fd fw")
  case None
  with Close_fd [OF assms(1)] have "fd fw' = None" by simp
  with None show ?thesis
    by (simp add: Write_no_event [OF assms(2)] File_Write_def)
next
  case (Some f)
  with Close_fd [OF assms(1)] have "fd fw' = Some (f\<lparr>closed := True\<rparr>)" by simp
  with Some show ?thesis
    by (simp add: Write_no_event [OF assms(2)] File_Write_def)
qed

theorem Write_after_Close_witness:
  "Write 3 (fst (snd (Close writer1 world1))) ''hello'' 0 (snd (snd (Close writer1 world1)))
     = (Return (Some (PathError ''write'' ''/var/log/app/text_2024-03-09_14.log'' ErrClosed)),
        fst (snd (Close writer1 world1)), snd (snd (Close writer1 world1)))"
proof -
  have h1: "Close writer1 world1
      = (fst (Close writer1 world1), fst (snd (Close writer1 world1)),
         snd (snd (Close writer1 world1)))"
    by simp
  have h2: "recv_C (hourlyTicker (fst (snd (Close writer1 world1)))) = None"
    by code_simp
  have f: "fd writer1 = Some \<lparr>name = ''/var/log/app/text_2024-03-09_14.log'',
                  entry = ''/var/log/app/text_2024-03-09_14.log'', closed = False\<rparr>"
    by (simp add: writer1_def)
  from Write_after_Close [OF h1 h2, of 3 "''hello''" 0 "snd (snd (Close writer1 world1))"]
  show ?thesis by (simp add: f)
qed

lemma Init_dir_fields:
  "fd (fst (Init_dir fw w)) = fd fw \<and> hourlyTicker (fst (Init_dir fw w)) = hourlyTicker fw"
  by (simp add: Init_dir_def Let_def split: prod.splits)

lemma Init_ticker: "hourlyTicker (fst (snd (Init fw w))) = hourlyTicker fw"
  by (simp add: Init_alt Let_def Init_dir_fields split: option.splits sum.splits)

lemma Init_error_keeps_fd:
  "Init fw w = (Return (Some err), fw', w') \<Longrightarrow> fd fw' = fd fw"
  by (simp add: Init_alt Let_def split: option.splits sum.splits)
     (auto simp: Init_dir_fields)

lemma recv_C_after:
  "recv_C ht0 = Some (t, ht) \<Longrightarrow> task ht = AtSelect (Hour t) \<and> recv_C ht = None"
  by (auto simp: recv_C_def split: task.splits)

text \<open>
  C5, as the claim states it, fails: \<open>checkFile\<close> drops the result of \<open>Init\<close>, after it
  has closed the old descriptor. Where the file of the new hour cannot be opened (a
  directory is in its place), the triggering \<open>Write\<close> writes to the closed descriptor and
  returns that write's error, the sink keeps the closed descriptor, and the next \<open>Write\<close>
  fails in the same way.
\<close>

theorem Write_failed_rotation_keeps_closed_fd:
  "(case Write 3 (clock_runs [Tick (at 15 0 0)] writer1) ''hello'' 0
           (at_time (at 15 0 1) world1_blocked) of
     (r, fw, w) \<Rightarrow>
       r = Return (Some (PathError ''write'' ''/var/log/app/text_2024-03-09_14.log'' ErrClosed))
       \<and> fd fw = Some \<lparr>name = ''/var/log/app/text_2024-03-09_14.log'',
                        entry = ''/var/log/app/text_2024-03-09_14.log'', closed = True\<rparr>
       \<and> fst (Write 3 fw ''again'' 0 w)
           = Return (Some (PathError ''write'' ''/var/log/app/text_2024-03-09_14.log'' ErrClosed)))"
  by code_simp

text \<open>
  C5 (amended): for every \<open>Write\<close> call during which rotation is triggered on an open
  descriptor and the re-initialization fails by returning an error (the hourly file
  cannot be opened), the error of \<open>Init\<close> is dropped: the triggering \<open>Write\<close> returns the
  \<open>ErrClosed\<close> error of the write on the old descriptor, the sink keeps that closed
  descriptor, and a following \<open>Write\<close> returns the same error.
\<close>

theorem Write_rotation_failure:
  assumes "recv_C (hourlyTicker fw) = Some (t, ht)"
    and "fd fw = Some f" and "\<not> closed f"
    and "w1 = (if lvl \<ge> LevelError then snd (postToSlack fw msg w) else w)"
    and "w2 = snd (snd (File_Close (Some f) (snd (File_Sync (Some f) w1))))"
    and "Init (fw\<lparr>hourlyTicker := ht, fd := Some (f\<lparr>closed := True\<rparr>)\<rparr>) w2
           = (Return (Some err), fw3, w3)"
  shows "Write LevelError fw msg lvl w
           = (Return (Some (PathError ''write'' (name f) ErrClosed)), fw3, w3)
       \<and> fd fw3 = Some (f\<lparr>closed := True\<rparr>)
       \<and> fst (Write LevelError fw3 msg' lvl' w4)
           = Return (Some (PathError ''write'' (name f) ErrClosed))"
proof -
  let ?fw2 = "fw\<lparr>hourlyTicker := ht, fd := Some (f\<lparr>closed := True\<rparr>)\<rparr>"
  have cl: "fst (snd (File_Close (Some f) (snd (File_Sync (Some f) w1)))) = Some (f\<lparr>closed := True\<rparr>)"
    using assms(3) by (simp add: File_Close_def split: option.splits)
  have fd3: "fd fw3 = Some (f\<lparr>closed := True\<rparr>)"
    using Init_error_keeps_fd [OF assms(6)] by simp
  have "hourlyTicker fw3 = ht"
    using Init_ticker [of ?fw2 w2] assms(6) by simp
  then have ev: "recv_C (hourlyTicker fw3) = None"
    using recv_C_after [OF assms(1)] by simp
  have c: "checkFile fw w1 = (Return (), fw3, w3)"
    using assms(1,2,6) cl
    by (simp add: checkFile_alt Let_def assms(5) [symmetric])
  have "Write LevelError fw msg lvl w
           = (Return (Some (PathError ''write'' (name f) ErrClosed)), fw3, w3)"
    using c fd3
    by (simp add: Write_alt Write_storage_def assms(4) [symmetric] File_Write_def)
  moreover have "fst (Write LevelError fw3 msg' lvl' w4)
           = Return (Some (PathError ''write'' (name f) ErrClosed))"
    using fd3 by (simp add: Write_no_event [OF ev] File_Write_def)
  ultimately show ?thesis using fd3 by simp
qed

theorem Write_rotation_failure_witness:
  "fst (Write 3 (clock_runs [Tick (at 15 0 0)] writer1) ''hello'' 0
          (at_time (at 15 0 1) world1_blocked))
     = Return (Some (PathError ''write'' ''/var/log/app/text_2024-03-09_14.log'' ErrClosed))
   \<and> map_option closed (fd (fst (snd (Write 3 (clock_runs [Tick (at 15 0 0)] writer1) ''hello'' 0
          (at_time (at 15 0 1) world1_blocked))))) = Some True"
proof -
  let ?fw = "clock_runs [Tick (at 15 0 0)] writer1"
  let ?w = "at_time (at 15 0 1) world1_blocked"
  let ?f = "\<lparr>name = ''/var/log/app/text_2024-03-09_14.log'',
             entry = ''/var/log/app/text_2024-03-09_14.log'', closed = False\<rparr>"
  let ?ht = "\<lparr>quitCh_closed = False, task = AtSelect 15\<rparr>"
  let ?w1 = "if (0::int) \<ge> 3 then snd (postToSlack ?fw ''hello'' ?w) else ?w"
  let ?w2 = "snd (snd (File_Close (Some ?f) (snd (File_Sync (Some ?f) ?w1))))"
  let ?i = "Init (?fw\<lparr>hourlyTicker := ?ht, fd := Some (?f\<lparr>closed := True\<rparr>)\<rparr>) ?w2"
  have h1: "recv_C (hourlyTicker ?fw) = Some (at 15 0 0, ?ht)"
    by (simp add: clock_runs_def writer1_def recv_C_def at_def)
  have h2: "fd ?fw = Some ?f"
    by (simp add: clock_runs_def writer1_def)
  have h3: "\<not> closed ?f"
    by simp
  have "fst ?i = Return (Some (PathError ''open'' ''/var/log/app/text_2024-03-09_15.log'' (Errno EISDIR)))"
    by code_simp
  then have h6: "?i = (Return (Some (PathError ''open'' ''/var/log/app/text_2024-03-09_15.log''
                                      (Errno EISDIR))), fst (snd ?i), snd (snd ?i))"
    by (simp add: prod_eq_iff)
  from Write_rotation_failure [OF h1 h2 h3 refl refl h6, of "''again''" 0 "snd (snd ?i)"]
  show ?thesis by simp
qed

lemma run_quiet:
  "list_all (same_hour h) es \<Longrightarrow>
   task ht = AtSelect h \<or> task ht = AtStart \<or> task ht = Finished \<Longrightarrow>
   task (run es ht) = AtSelect h \<or> task (run es ht) = AtStart \<or> task (run es ht) = Finished"
proof (induction es arbitrary: ht)
  case Nil
  then show ?case by simp
next
  case (Cons e es)
  from Cons.prems have q: "list_all (same_hour h) es" and e: "same_hour h e" by simp_all
  show ?case
  proof (cases "startTimer_step e ht")
    case None
    with Cons.IH [OF q Cons.prems(2)] show ?thesis by simp
  next
    case (Some ht')
    have "task ht' = AtSelect h \<or> task ht' = AtStart \<or> task ht' = Finished"
      using Some e Cons.prems(2)
      by (cases e) (auto split: task.splits if_splits)
    with Cons.IH [OF q this] Some show ?thesis by simp
  qed
qed

lemma not_parked_no_event:
  "task ht = AtSelect h \<or> task ht = AtStart \<or> task ht = Finished \<Longrightarrow> recv_C ht = None"
  by (auto simp: recv_C_def)

lemma checkFile_ticker:
  "recv_C (hourlyTicker (fst (snd (checkFile fw w)))) = None
   \<and> (recv_C (hourlyTicker fw) = Some (t, ht)
        \<longrightarrow> task (hourlyTicker (fst (snd (checkFile fw w)))) = AtSelect (Hour t))"
proof (cases "recv_C (hourlyTicker fw)")
  case None
  then show ?thesis by (simp add: checkFile_no_event)
next
  case (Some p)
  obtain t' ht' where p: "p = (t', ht')" by (cases p)
  from recv_C_after [OF Some [unfolded p]] Some p show ?thesis
    by (auto simp: checkFile_alt Let_def Init_ticker)
qed

lemma Write_ticker:
  "hourlyTicker (fst (snd (Write LevelError fw msg lvl w)))
     = hourlyTicker (fst (snd (checkFile fw
         (if lvl \<ge> LevelError then snd (postToSlack fw msg w) else w))))"
  by (cases "fst (checkFile fw (if lvl \<ge> LevelError then snd (postToSlack fw msg w) else w))")
     (simp_all add: Write_alt Write_storage_alt)

lemma postToSlack_trace:
  "\<exists>r. trace (snd (postToSlack fw msg w))
         = trace w @ [(HttpPost (url fw) ''application/json''
                        (JObject [(''text'', JString msg),
                                  (''username'', JString (Username (slack fw))),
                                  (''channel'', JString (Channel (slack fw)))]), r)]"
  by (simp add: postToSlack_def json_Marshal_def http_Post_def Let_def split: option.splits)

lemma File_Write_trace:
  "\<exists>xs. trace (snd (File_Write fo b w)) = trace w @ xs \<and> list_all (\<lambda>c. file_call (fst c)) xs"
  by (auto simp: File_Write_def split: option.splits node.splits)

lemma Write_no_event_calls:
  assumes "recv_C (hourlyTicker fw) = None"
  shows "list_all (\<lambda>c. is_post (fst c) \<or> file_call (fst c))
           (calls_since w (snd (snd (Write LevelError fw msg lvl w))))"
proof -
  let ?w1 = "if lvl \<ge> LevelError then snd (postToSlack fw msg w) else w"
  obtain xs where xs: "trace ?w1 = trace w @ xs" "list_all (\<lambda>c. is_post (fst c)) xs"
    using postToSlack_trace [of fw msg w] by (cases "lvl \<ge> LevelError") auto
  obtain ys where ys: "trace (snd (File_Write (fd fw) msg ?w1)) = trace ?w1 @ ys"
    "list_all (\<lambda>c. file_call (fst c)) ys"
    using File_Write_trace [of "fd fw" msg ?w1] by blast
  have "calls_since w (snd (snd (Write LevelError fw msg lvl w))) = xs @ ys"
    using xs(1) ys(1) by (simp add: Write_no_event [OF assms] calls_since_def)
  with xs(2) ys(2) show ?thesis by (auto simp: list_all_iff)
qed

text \<open>
  C7, as the claim states it, fails in its second part: whether a \<open>Write\<close> rotates
  depends on what the clock task has delivered, not on the times of the writes. A
  \<open>Write\<close> at 15:00:00 finds no event yet and writes to the file of hour 14; the clock's
  next tick, at 15:00:01, offers the event; the next \<open>Write\<close>, at 15:00:01 and so in the
  same wall-clock hour as the one before, rotates to the file of hour 15.
\<close>

theorem same_hour_Write_rotates:
  "(case Write 3 writer1 ''a'' 0 (at_time (at 15 0 0) world1) of
     (r1, fw1, w1) \<Rightarrow>
       (case Write 3 (clock_runs [Tick (at 15 0 1)] fw1) ''b'' 0 (at_time (at 15 0 1) w1) of
          (r2, fw2, w2) \<Rightarrow>
            Hour (now (at_time (at 15 0 0) world1)) = 15
            \<and> Hour (now (at_time (at 15 0 1) w1)) = 15
            \<and> map_option name (fd fw1) = Some ''/var/log/app/text_2024-03-09_14.log''
            \<and> map_option name (fd fw2) = Some ''/var/log/app/text_2024-03-09_15.log''))"
  by code_simp

text \<open>
  C7 (amended): rotation is lazy: it occurs only inside a \<open>Write\<close> call that finds a
  pending hour-boundary event; a \<open>Write\<close> that finds none leaves the writer (descriptor,
  file name, base directory) as it is and makes no call but the alert request and the
  write. After every \<open>Write\<close> no event is pending, and the clock task tracks the hour of
  the tick it delivered, if it delivered one. For every pair of consecutive \<open>Write\<close> calls
  between which the clock task observes only ticks in the hour it tracks, the second
  call never triggers rotation.
\<close>

theorem rotation_only_on_pending_event:
  assumes "Write LevelError fw msg lvl w = (r1, fw1, w1)"
    and "task (hourlyTicker fw1) = AtSelect h"
    and "list_all (same_hour h) es"
  shows "(recv_C (hourlyTicker fw) = None \<longrightarrow>
            fw1 = fw
            \<and> list_all (\<lambda>c. is_post (fst c) \<or> file_call (fst c)) (calls_since w w1))
       \<and> (\<forall>t ht. recv_C (hourlyTicker fw) = Some (t, ht) \<longrightarrow> h = Hour t)
       \<and> recv_C (hourlyTicker fw1) = None
       \<and> recv_C (hourlyTicker (clock_runs es fw1)) = None
       \<and> fst (snd (Write LevelError (clock_runs es fw1) msg' lvl' w2)) = clock_runs es fw1
       \<and> list_all (\<lambda>c. is_post (fst c) \<or> file_call (fst c))
            (calls_since w2 (snd (snd (Write LevelError (clock_runs es fw1) msg' lvl' w2))))"
proof -
  let ?w0 = "if lvl \<ge> LevelError then snd (postToSlack fw msg w) else w"
  have t1: "hourlyTicker fw1 = hourlyTicker (fst (snd (checkFile fw ?w0)))"
    using Write_ticker [of LevelError fw msg lvl w] assms(1) by simp
  have a: "recv_C (hourlyTicker fw) = None \<longrightarrow>
            fw1 = fw
            \<and> list_all (\<lambda>c. is_post (fst c) \<or> file_call (fst c)) (calls_since w w1)"
  proof
    assume n: "recv_C (hourlyTicker fw) = None"
    from Write_no_event [OF n, of LevelError msg lvl w] assms(1) have "fw1 = fw" by simp
    moreover from Write_no_event_calls [OF n, of w LevelError msg lvl] assms(1)
    have "list_all (\<lambda>c. is_post (fst c) \<or> file_call (fst c)) (calls_since w w1)" by simp
    ultimately show "fw1 = fw
            \<and> list_all (\<lambda>c. is_post (fst c) \<or> file_call (fst c)) (calls_since w w1)" by simp
  qed
  have b: "\<forall>t ht. recv_C (hourlyTicker fw) = Some (t, ht) \<longrightarrow> h = Hour t"
    using checkFile_ticker [of fw ?w0] t1 assms(2) by auto
  have c: "recv_C (hourlyTicker fw1) = None"
    using checkFile_ticker [of fw ?w0] t1 by simp
  have "task (run es (hourlyTicker fw1)) = AtSelect h \<or> task (run es (hourlyTicker fw1)) = AtStart
        \<or> task (run es (hourlyTicker fw1)) = Finished"
    using assms(2,3) by (intro run_quiet) simp_all
  then have d: "recv_C (hourlyTicker (clock_runs es fw1)) = None"
    by (simp add: clock_runs_def not_parked_no_event)
  have e: "fst (snd (Write LevelError (clock_runs es fw1) msg' lvl' w2)) = clock_runs es fw1"
    by (simp add: Write_no_event [OF d])
  note f = Write_no_event_calls [OF d, of w2 LevelError msg' lvl']
  from a b c d e f show ?thesis by (simp only: simp_thms)
qed

theorem rotation_only_on_pending_event_witness:
  "map_option name (fd (fst (snd (Write 3 (clock_runs [Tick (at 15 0 0)] writer1) ''a'' 0
                                    (at_time (at 15 0 1) world1)))))
     = Some ''/var/log/app/text_2024-03-09_15.log''
   \<and> fst (snd (Write 3
        (clock_runs [Tick (at 15 0 2), Tick (at 15 59 59)]
           (fst (snd (Write 3 (clock_runs [Tick (at 15 0 0)] writer1) ''a'' 0
                        (at_time (at 15 0 1) world1)))))
        ''b'' 0 (at_time (at 15 59 59) world1)))
     = clock_runs [Tick (at 15 0 2), Tick (at 15 59 59)]
         (fst (snd (Write 3 (clock_runs [Tick (at 15 0 0)] writer1) ''a'' 0
                      (at_time (at 15 0 1) world1))))"
proof -
  let ?x = "Write 3 (clock_runs [Tick (at 15 0 0)] writer1) ''a'' 0 (at_time (at 15 0 1) world1)"
  have h1: "?x = (fst ?x, fst (snd ?x), snd (snd ?x))"
    by simp
  have h2: "task (hourlyTicker (fst (snd ?x))) = AtSelect 15
      \<and> map_option name (fd (fst (snd ?x))) = Some ''/var/log/app/text_2024-03-09_15.log''"
    by code_simp
  have h3: "list_all (same_hour 15) [Tick (at 15 0 2), Tick (at 15 59 59)]"
    by (simp add: at_def)
  from rotation_only_on_pending_event [OF h1 conjunct1 [OF h2] h3, of "''b''" 0
      "at_time (at 15 59 59) world1"] h2
  show ?thesis by simp
qed

end
